theory Spec2Isabelle
  imports Complex_Main
begin

section \<open>Python values and strings\<close>

text \<open>
  The services exchange JSON documents through text files. A decoded document is a value of
  \<open>json\<close>: \<open>JObj\<close> is a Python \<open>dict\<close> with string keys in insertion order (the keys of one
  object are distinct, as \<open>json.loads\<close> produces them), \<open>JArr\<close> a \<open>list\<close>, \<open>JInt\<close> an unbounded
  \<open>int\<close>. A \<open>float\<close> is carried by its \<open>repr\<close>, the only thing the services ever ask of one.

  Text is a \<open>string\<close> whose characters are the code points below 256. White space is what
  \<open>str.isspace\<close> accepts in that range; it is also what \<open>\\s\<close> matches in a \<open>str\<close> pattern.
  Case conversion is embedded on the ASCII letters and leaves every other code point as it is,
  which is what Python does on ASCII text.
\<close>

datatype json =
    JNull
  | JBool bool
  | JInt int
  | JFloat string
  | JStr string
  | JArr "json list"
  | JObj "(string \<times> json) list"

definition code :: "char \<Rightarrow> nat" where
  "code c = of_char c"

definition py_isspace :: "char \<Rightarrow> bool" where
  "py_isspace c = (let n = code c in (9 \<le> n \<and> n \<le> 13) \<or> (28 \<le> n \<and> n \<le> 32) \<or> n = 133 \<or> n = 160)"

definition is_ascii_upper :: "char \<Rightarrow> bool" where
  "is_ascii_upper c = (65 \<le> code c \<and> code c \<le> 90)"

definition is_ascii_lower :: "char \<Rightarrow> bool" where
  "is_ascii_lower c = (97 \<le> code c \<and> code c \<le> 122)"

definition is_ascii_digit :: "char \<Rightarrow> bool" where
  "is_ascii_digit c = (48 \<le> code c \<and> code c \<le> 57)"

definition lower_char :: "char \<Rightarrow> char" where
  "lower_char c = (if is_ascii_upper c then char_of (code c + 32) else c)"

definition upper_char :: "char \<Rightarrow> char" where
  "upper_char c = (if is_ascii_lower c then char_of (code c - 32) else c)"

definition py_lower :: "string \<Rightarrow> string" where
  "py_lower s = map lower_char s"

definition py_upper :: "string \<Rightarrow> string" where
  "py_upper s = map upper_char s"

text \<open>
  \<open>str.title\<close>: a cased character that follows a cased character is lowered, any other
  character is put in title case (upper case, for ASCII).
\<close>

fun title_from :: "bool \<Rightarrow> string \<Rightarrow> string" where
  "title_from previous_is_cased [] = []"
| "title_from previous_is_cased (c # cs) =
     (if previous_is_cased then lower_char c else upper_char c)
       # title_from (is_ascii_upper c \<or> is_ascii_lower c) cs"

definition py_title :: "string \<Rightarrow> string" where
  "py_title s = title_from False s"

definition py_strip :: "string \<Rightarrow> string" where
  "py_strip s = rev (dropWhile py_isspace (rev (dropWhile py_isspace s)))"

text \<open>\<open>str.split()\<close> without arguments: the maximal runs of characters that are not white space.\<close>

fun split_from :: "string \<Rightarrow> string \<Rightarrow> string list" where
  "split_from word [] = (if word = [] then [] else [word])"
| "split_from word (c # cs) =
     (if py_isspace c then (if word = [] then split_from [] cs else word # split_from [] cs)
      else split_from (word @ [c]) cs)"

definition py_split :: "string \<Rightarrow> string list" where
  "py_split s = split_from [] s"

fun py_join :: "string \<Rightarrow> string list \<Rightarrow> string" where
  "py_join sep [] = []"
| "py_join sep [x] = x"
| "py_join sep (x # y # ys) = x @ sep @ py_join sep (y # ys)"

subsection \<open>\<open>str\<close> and \<open>repr\<close>\<close>

function str_nat :: "nat \<Rightarrow> string" where
  "str_nat n = (if n < 10 then [char_of (48 + n)] else str_nat (n div 10) @ [char_of (48 + n mod 10)])"
  by pat_completeness auto
termination
  by (relation "measure id") auto

definition str_int :: "int \<Rightarrow> string" where
  "str_int i = (if i < 0 then CHR ''-'' # str_nat (nat (- i)) else str_nat (nat i))"

definition hex_digit :: "nat \<Rightarrow> char" where
  "hex_digit n = (if n < 10 then char_of (48 + n) else char_of (87 + n))"

definition is_printable :: "char \<Rightarrow> bool" where
  "is_printable c = (let n = code c in (32 \<le> n \<and> n < 127) \<or> (161 \<le> n \<and> n \<noteq> 173))"

definition repr_char :: "char \<Rightarrow> char \<Rightarrow> string" where
  "repr_char quote c =
     (if c = quote \<or> c = CHR 0x5C then [CHR 0x5C, c]
      else if c = CHR 0x09 then [CHR 0x5C, CHR ''t'']
      else if c = CHR 0x0A then [CHR 0x5C, CHR ''n'']
      else if c = CHR 0x0D then [CHR 0x5C, CHR ''r'']
      else if is_printable c then [c]
      else [CHR 0x5C, CHR ''x'', hex_digit (code c div 16), hex_digit (code c mod 16)])"

definition repr_str :: "string \<Rightarrow> string" where
  "repr_str s =
     (let quote = (if CHR 0x27 \<in> set s \<and> CHR 0x22 \<notin> set s then CHR 0x22 else CHR 0x27)
      in [quote] @ concat (map (repr_char quote) s) @ [quote])"

fun py_repr :: "json \<Rightarrow> string" where
  "py_repr JNull = ''None''"
| "py_repr (JBool b) = (if b then ''True'' else ''False'')"
| "py_repr (JInt i) = str_int i"
| "py_repr (JFloat r) = r"
| "py_repr (JStr s) = repr_str s"
| "py_repr (JArr xs) = ''['' @ py_join '', '' (map py_repr xs) @ '']''"
| "py_repr (JObj kvs) =
     ''{'' @ py_join '', '' (map (\<lambda>kv. repr_str (fst kv) @ '': '' @ py_repr (snd kv)) kvs) @ ''}''"

definition py_str :: "json \<Rightarrow> string" where
  "py_str v = (case v of JStr s \<Rightarrow> s | _ \<Rightarrow> py_repr v)"

definition type_name :: "json \<Rightarrow> string" where
  "type_name v = (case v of
       JNull \<Rightarrow> ''NoneType'' | JBool _ \<Rightarrow> ''bool'' | JInt _ \<Rightarrow> ''int'' | JFloat _ \<Rightarrow> ''float''
     | JStr _ \<Rightarrow> ''str'' | JArr _ \<Rightarrow> ''list'' | JObj _ \<Rightarrow> ''dict'')"

text \<open>Truth value of a decoded document, as \<open>if request:\<close> tests it.\<close>

definition truthy :: "json \<Rightarrow> bool" where
  "truthy v = (case v of
       JNull \<Rightarrow> False | JBool b \<Rightarrow> b | JInt i \<Rightarrow> i \<noteq> 0
     | JFloat r \<Rightarrow> r \<noteq> ''0.0'' \<and> r \<noteq> ''-0.0''
     | JStr s \<Rightarrow> s \<noteq> [] | JArr xs \<Rightarrow> xs \<noteq> [] | JObj kvs \<Rightarrow> kvs \<noteq> [])"

subsection \<open>Exceptions\<close>

definition quoted :: "string \<Rightarrow> string" where
  "quoted s = [CHR 0x27] @ s @ [CHR 0x27]"

datatype exn =
    AttributeError string string
  | TypeError string
  | ValueError string
  | KeyError string
  | FileNotFoundError string
  | OtherException

fun str_exn :: "exn \<Rightarrow> string" where
  "str_exn (AttributeError ty attr) = quoted ty @ '' object has no attribute '' @ quoted attr"
| "str_exn (TypeError msg) = msg"
| "str_exn (ValueError msg) = msg"
| "str_exn (KeyError key) = quoted key"
| "str_exn (FileNotFoundError name) = name"
| "str_exn OtherException = []"

text \<open>Sequencing: a raised exception skips the rest of the block.\<close>

definition and_then :: "exn + 'a \<Rightarrow> ('a \<Rightarrow> exn + 'b) \<Rightarrow> exn + 'b" where
  "and_then m f = (case m of Inl e \<Rightarrow> Inl e | Inr x \<Rightarrow> f x)"

text \<open>\<open>d.get(key, default)\<close> and \<open>s.lower()\<close> exist on a \<open>dict\<close> and on a \<open>str\<close> only.\<close>

definition py_get :: "json \<Rightarrow> string \<Rightarrow> json \<Rightarrow> exn + json" where
  "py_get d key dflt = (case d of
       JObj kvs \<Rightarrow> Inr (case map_of kvs key of Some v \<Rightarrow> v | None \<Rightarrow> dflt)
     | _ \<Rightarrow> Inl (AttributeError (type_name d) ''get''))"

definition lower_method :: "json \<Rightarrow> exn + string" where
  "lower_method v = (case v of
       JStr s \<Rightarrow> Inr (py_lower s)
     | _ \<Rightarrow> Inl (AttributeError (type_name v) ''lower''))"

section \<open>The text formatter service (\<open>text_formatter.py\<close>)\<close>

text \<open>
  \<open>re.sub(r'[^a-zA-Z0-9\\s]', '', text)\<close>: the pattern matches one character outside the
  class; the scan goes left to right and replaces every match by the empty string.
\<close>

definition special :: "char \<Rightarrow> bool" where
  "special c = (\<not> (is_ascii_lower c \<or> is_ascii_upper c \<or> is_ascii_digit c \<or> py_isspace c))"

fun re_sub_special :: "string \<Rightarrow> string" where
  "re_sub_special [] = []"
| "re_sub_special (c # cs) = (if special c then re_sub_special cs else c # re_sub_special cs)"

definition format_text :: "string \<Rightarrow> string \<Rightarrow> exn + string" where
  "format_text text format_type =
     (if format_type = ''upper'' then Inr (py_upper text)
      else if format_type = ''lower'' then Inr (py_lower text)
      else if format_type = ''title'' then Inr (py_title text)
      else if format_type = ''clean'' then Inr (re_sub_special text)
      else Inl (ValueError (''Unknown format type: '' @ format_type)))"

definition tf_failure :: "string \<Rightarrow> json" where
  "tf_failure msg = JObj [(''success'', JBool False), (''result'', JStr []), (''error'', JStr msg)]"

definition tf_success :: "string \<Rightarrow> json" where
  "tf_success res = JObj [(''success'', JBool True), (''result'', JStr res), (''error'', JStr [])]"

definition use_formats :: string where
  "use_formats = ''Use '' @ quoted ''upper'' @ '', '' @ quoted ''lower'' @ '', '' @ quoted ''title''
     @ '', or '' @ quoted ''clean'' @ ''.''"

text \<open>The body of the \<open>try\<close> block of \<open>process_request\<close>; \<open>Inl\<close> is a raised exception.\<close>

definition tf_try :: "json \<Rightarrow> exn + json" where
  "tf_try request_data =
     and_then (py_get request_data ''text'' (JStr [])) (\<lambda>text.
     and_then (py_get request_data ''format'' (JStr [])) (\<lambda>fmt.
     and_then (lower_method fmt) (\<lambda>format_type.
        if format_type = [] then
          Inr (tf_failure (''Missing '' @ quoted ''format'' @ '' field. '' @ use_formats))
        else if format_type \<notin> set [''upper'', ''lower'', ''title'', ''clean''] then
          Inr (tf_failure (''Invalid format type '' @ quoted format_type @ ''. '' @ use_formats))
        else
          and_then (format_text (py_str (if text = JNull then JStr [] else text)) format_type)
            (\<lambda>res. Inr (tf_success res)))))"

text \<open>\<open>process_request\<close>: \<open>except Exception as e\<close> turns whatever the body raised into a response.\<close>

definition tf_process_request :: "json \<Rightarrow> json" where
  "tf_process_request request_data =
     (case tf_try request_data of Inr response \<Rightarrow> response | Inl e \<Rightarrow> tf_failure (str_exn e))"

section \<open>The data counter service (\<open>data_counter.py\<close>)\<close>

text \<open>
  \<open>dict(Counter(str_items))\<close>: one entry per distinct item, in the order of first occurrence,
  holding the number of occurrences.
\<close>

fun counter_add :: "string \<Rightarrow> (string \<times> nat) list \<Rightarrow> (string \<times> nat) list" where
  "counter_add k [] = [(k, 1)]"
| "counter_add k ((k', n) # rest) =
     (if k = k' then (k', Suc n) # rest else (k', n) # counter_add k rest)"

definition py_Counter :: "string list \<Rightarrow> (string \<times> nat) list" where
  "py_Counter xs = foldl (\<lambda>acc k. counter_add k acc) [] xs"

definition counts_obj :: "(string \<times> nat) list \<Rightarrow> json" where
  "counts_obj kvs = JObj (map (\<lambda>kv. (fst kv, JInt (int (snd kv)))) kvs)"

definition count_items :: "json \<Rightarrow> exn + json" where
  "count_items items = (case items of
       JArr xs \<Rightarrow>
         (let str_items = map py_str xs;
              item_counts = py_Counter str_items
          in Inr (JObj [(''success'', JBool True),
                        (''total_count'', JInt (int (length str_items))),
                        (''unique_count'', JInt (int (length item_counts))),
                        (''item_counts'', counts_obj item_counts),
                        (''error'', JStr [])]))
     | _ \<Rightarrow> Inl (ValueError ''Data must be a list of items''))"

definition get_text_stats :: "json \<Rightarrow> json" where
  "get_text_stats text =
     (let text = py_str (if text = JNull then JStr [] else text)
      in JObj [(''success'', JBool True),
               (''character_count'', JInt (int (length text))),
               (''word_count'', JInt (int (length (py_split text)))),
               (''error'', JStr [])])"

definition dc_failure :: "string \<Rightarrow> json" where
  "dc_failure msg = JObj [(''success'', JBool False), (''error'', JStr msg)]"

definition use_modes :: string where
  "use_modes = ''Use '' @ quoted ''count'' @ '' or '' @ quoted ''stats'' @ ''.''"

definition dc_try :: "json \<Rightarrow> exn + json" where
  "dc_try request_data =
     and_then (py_get request_data ''mode'' (JStr [])) (\<lambda>m.
     and_then (lower_method m) (\<lambda>mode.
     and_then (py_get request_data ''data'' JNull) (\<lambda>data.
        if mode = [] then
          Inr (dc_failure (''Missing '' @ quoted ''mode'' @ '' field. '' @ use_modes))
        else if mode = ''count'' then
          (if data = JNull then
             Inr (dc_failure (''Missing '' @ quoted ''data'' @ '' field. Provide a list of items.''))
           else if type_name data \<noteq> ''list'' then
             Inr (dc_failure (quoted ''data'' @ '' must be a list of items for '' @ quoted ''count''
                    @ '' mode.''))
           else count_items data)
        else if mode = ''stats'' then
          Inr (get_text_stats (if data = JNull then JStr [] else data))
        else Inr (dc_failure (''Invalid mode '' @ quoted mode @ ''. '' @ use_modes)))))"

definition dc_process_request :: "json \<Rightarrow> json" where
  "dc_process_request request_data =
     (case dc_try request_data of Inr response \<Rightarrow> response | Inl e \<Rightarrow> dc_failure (str_exn e))"

section \<open>Files, effects and the JSON library\<close>

text \<open>
  \<open>json.loads\<close> and \<open>json.dumps\<close> belong to the Python library, not to the program: they are
  parameters of the model. \<open>loads\<close> either returns a document, raises \<open>JSONDecodeError\<close>, or
  raises something else (\<open>RecursionError\<close> on deep nesting, \<open>ValueError\<close> on an oversized
  number), which the program tells apart from a decode error.
\<close>

datatype decoded = Decoded json | JSONDecodeError | OtherError

record json_lib =
  loads :: "string \<Rightarrow> decoded"
  dumps :: "json \<Rightarrow> string"
  dumps_indent :: "json \<Rightarrow> string"

text \<open>
  A process sees the files of the working directory and leaves a trace of what it does, in
  order: the files it writes, the lines it prints, the times it sleeps. Files hold text, and
  reading or writing an existing file succeeds.
\<close>

datatype line = Banner | Received_request json | Sending_response json | Shutting_down

datatype effect = Write string string | Touch string | Print line | Sleep

record world =
  files :: "string \<rightharpoonup> string"
  trace :: "effect list"

definition write_text :: "string \<Rightarrow> string \<Rightarrow> world \<Rightarrow> world" where
  "write_text path s w = w\<lparr>files := (files w)(path \<mapsto> s), trace := trace w @ [Write path s]\<rparr>"

definition touch :: "string \<Rightarrow> world \<Rightarrow> world" where
  "touch path w =
     w\<lparr>files := (case files w path of None \<Rightarrow> (files w)(path \<mapsto> []) | Some _ \<Rightarrow> files w),
       trace := trace w @ [Touch path]\<rparr>"

definition print :: "line \<Rightarrow> world \<Rightarrow> world" where
  "print l w = w\<lparr>trace := trace w @ [Print l]\<rparr>"

text \<open>
  \<open>time.sleep\<close>: while the process sleeps, the process at the other end of the channel may
  overwrite the file it writes to (\<open>Some s\<close>) or leave it alone (\<open>None\<close>).
\<close>

definition sleep :: "string \<Rightarrow> string option \<Rightarrow> world \<Rightarrow> world" where
  "sleep path written w =
     w\<lparr>files := (case written of None \<Rightarrow> files w | Some s \<Rightarrow> (files w)(path \<mapsto> s)),
       trace := trace w @ [Sleep]\<rparr>"

subsection \<open>Operators on decoded documents\<close>

fun starts_with :: "string \<Rightarrow> string \<Rightarrow> bool" where
  "starts_with [] s = True"
| "starts_with (p # ps) [] = False"
| "starts_with (p # ps) (c # cs) = (p = c \<and> starts_with ps cs)"

fun has_substring :: "string \<Rightarrow> string \<Rightarrow> bool" where
  "has_substring p [] = (p = [])"
| "has_substring p (c # cs) = (starts_with p (c # cs) \<or> has_substring p cs)"

text \<open>\<open>key in request\<close>, \<open>request[key]\<close> and \<open>len(request)\<close> for a string \<open>key\<close>.\<close>

definition py_in :: "string \<Rightarrow> json \<Rightarrow> exn + bool" where
  "py_in key v = (case v of
       JObj kvs \<Rightarrow> Inr (key \<in> set (map fst kvs))
     | JArr xs \<Rightarrow> Inr (JStr key \<in> set xs)
     | JStr s \<Rightarrow> Inr (has_substring key s)
     | _ \<Rightarrow> Inl (TypeError (''argument of type '' @ quoted (type_name v) @ '' is not iterable'')))"

definition py_item :: "json \<Rightarrow> string \<Rightarrow> exn + json" where
  "py_item v key = (case v of
       JObj kvs \<Rightarrow> (case map_of kvs key of Some x \<Rightarrow> Inr x | None \<Rightarrow> Inl (KeyError key))
     | JArr xs \<Rightarrow> Inl (TypeError ''list indices must be integers or slices, not str'')
     | JStr s \<Rightarrow> Inl (TypeError (''string indices must be integers, not '' @ quoted ''str''))
     | _ \<Rightarrow> Inl (TypeError (quoted (type_name v) @ '' object is not subscriptable'')))"

definition py_len :: "json \<Rightarrow> exn + nat" where
  "py_len v = (case v of
       JObj kvs \<Rightarrow> Inr (length kvs)
     | JArr xs \<Rightarrow> Inr (length xs)
     | JStr s \<Rightarrow> Inr (length s)
     | _ \<Rightarrow> Inl (TypeError (''object of type '' @ quoted (type_name v) @ '' has no len()'')))"

section \<open>The worker loops\<close>

text \<open>
  One pass of a worker's \<open>while True\<close> either goes on to the next pass or ends the process
  with an exception that the loop does not catch (it catches \<open>KeyboardInterrupt\<close> only).
\<close>

datatype outcome = Continue world | Crashed exn world

fun world_of :: "outcome \<Rightarrow> world" where
  "world_of (Continue w) = w"
| "world_of (Crashed e w) = w"

subsection \<open>Data counter\<close>

definition DC_REQUEST_FILE :: string where
  "DC_REQUEST_FILE = ''data_counter_request.txt''"

definition DC_RESPONSE_FILE :: string where
  "DC_RESPONSE_FILE = ''data_counter_response.txt''"

text \<open>
  \<open>read_request\<close>: \<open>None\<close> when there is nothing to handle. The file is cleared after the
  content was decoded and after \<open>JSONDecodeError\<close>; \<open>except Exception\<close> returns \<open>None\<close> and
  leaves the file as it is.
\<close>

definition dc_read_request :: "json_lib \<Rightarrow> world \<Rightarrow> json option \<times> world" where
  "dc_read_request lib w = (case files w DC_REQUEST_FILE of
       None \<Rightarrow> (None, w)
     | Some raw \<Rightarrow>
         (let content = py_strip raw in
          if content = [] then (None, w)
          else (case loads lib content of
                  Decoded request_data \<Rightarrow> (Some request_data, write_text DC_REQUEST_FILE [] w)
                | JSONDecodeError \<Rightarrow>
                    (Some (JObj [(''_parse_error'', JStr ''Invalid JSON in request file'')]),
                     write_text DC_REQUEST_FILE [] w)
                | OtherError \<Rightarrow> (None, w))))"

definition dc_write_response :: "json_lib \<Rightarrow> json \<Rightarrow> world \<Rightarrow> world" where
  "dc_write_response lib response w = write_text DC_RESPONSE_FILE (dumps_indent lib response) w"

text \<open>The body of the loop up to \<open>time.sleep\<close>.\<close>

definition dc_handle :: "json_lib \<Rightarrow> world \<Rightarrow> outcome" where
  "dc_handle lib w = (case dc_read_request lib w of
       (None, w1) \<Rightarrow> Continue w1
     | (Some request, w1) \<Rightarrow>
         if \<not> truthy request then Continue w1
         else (case py_in ''_parse_error'' request of
                 Inl e \<Rightarrow> Crashed e w1
               | Inr True \<Rightarrow>
                   (case py_item request ''_parse_error'' of
                      Inl e \<Rightarrow> Crashed e w1
                    | Inr msg \<Rightarrow>
                        Continue (dc_write_response lib
                          (JObj [(''success'', JBool False), (''error'', msg)]) w1))
               | Inr False \<Rightarrow>
                   (let w2 = print (Received_request request) w1;
                        response = dc_process_request request;
                        w3 = print (Sending_response response) w2
                    in Continue (dc_write_response lib response w3))))"

definition dc_iteration :: "json_lib \<Rightarrow> string option \<Rightarrow> world \<Rightarrow> outcome" where
  "dc_iteration lib incoming w = (case dc_handle lib w of
       Continue w1 \<Rightarrow> Continue (sleep DC_REQUEST_FILE incoming w1)
     | Crashed e w1 \<Rightarrow> Crashed e w1)"

text \<open>
  \<open>main\<close>, interrupted from the keyboard during the sleep of pass number \<open>n\<close>; \<open>incoming k\<close> is
  what a caller writes into the request file during the sleep of pass \<open>k\<close>.
\<close>

fun dc_loop :: "json_lib \<Rightarrow> (nat \<Rightarrow> string option) \<Rightarrow> nat \<Rightarrow> nat \<Rightarrow> world \<Rightarrow> outcome" where
  "dc_loop lib incoming k 0 w = Continue (print Shutting_down w)"
| "dc_loop lib incoming k (Suc n) w = (case dc_iteration lib (incoming k) w of
       Continue w1 \<Rightarrow> dc_loop lib incoming (Suc k) n w1
     | Crashed e w1 \<Rightarrow> Crashed e w1)"

definition dc_main :: "json_lib \<Rightarrow> (nat \<Rightarrow> string option) \<Rightarrow> nat \<Rightarrow> world \<Rightarrow> outcome" where
  "dc_main lib incoming n w =
     dc_loop lib incoming 0 n (write_text DC_RESPONSE_FILE [] (touch DC_REQUEST_FILE (print Banner w)))"

subsection \<open>Text formatter\<close>

definition TF_REQUEST_FILE :: string where
  "TF_REQUEST_FILE = ''text_formatter_request.txt''"

definition TF_RESPONSE_FILE :: string where
  "TF_RESPONSE_FILE = ''text_formatter_response.txt''"

definition tf_read_request :: "json_lib \<Rightarrow> world \<Rightarrow> json option \<times> world" where
  "tf_read_request lib w = (case files w TF_REQUEST_FILE of
       None \<Rightarrow> (None, w)
     | Some raw \<Rightarrow>
         (let content = py_strip raw in
          if content = [] then (None, w)
          else (case loads lib content of
                  Decoded request_data \<Rightarrow> (Some request_data, write_text TF_REQUEST_FILE [] w)
                | JSONDecodeError \<Rightarrow>
                    (Some (JObj [(''error'', JStr ''Invalid JSON in request file'')]),
                     write_text TF_REQUEST_FILE [] w)
                | OtherError \<Rightarrow> (None, w))))"

definition tf_write_response :: "json_lib \<Rightarrow> json \<Rightarrow> world \<Rightarrow> world" where
  "tf_write_response lib response w = write_text TF_RESPONSE_FILE (dumps_indent lib response) w"

text \<open>\<open>"error" in request and len(request) == 1\<close>; \<open>and\<close> evaluates its right side only if needed.\<close>

definition tf_is_parse_error :: "json \<Rightarrow> exn + bool" where
  "tf_is_parse_error request =
     and_then (py_in ''error'' request) (\<lambda>found.
       if found then and_then (py_len request) (\<lambda>n. Inr (n = 1)) else Inr False)"

definition tf_handle :: "json_lib \<Rightarrow> world \<Rightarrow> outcome" where
  "tf_handle lib w = (case tf_read_request lib w of
       (None, w1) \<Rightarrow> Continue w1
     | (Some request, w1) \<Rightarrow>
         if \<not> truthy request then Continue w1
         else (case tf_is_parse_error request of
                 Inl e \<Rightarrow> Crashed e w1
               | Inr True \<Rightarrow>
                   (case py_item request ''error'' of
                      Inl e \<Rightarrow> Crashed e w1
                    | Inr msg \<Rightarrow>
                        Continue (tf_write_response lib
                          (JObj [(''success'', JBool False), (''result'', JStr []), (''error'', msg)])
                          w1))
               | Inr False \<Rightarrow>
                   (let w2 = print (Received_request request) w1;
                        response = tf_process_request request;
                        w3 = print (Sending_response response) w2
                    in Continue (tf_write_response lib response w3))))"

definition tf_iteration :: "json_lib \<Rightarrow> string option \<Rightarrow> world \<Rightarrow> outcome" where
  "tf_iteration lib incoming w = (case tf_handle lib w of
       Continue w1 \<Rightarrow> Continue (sleep TF_REQUEST_FILE incoming w1)
     | Crashed e w1 \<Rightarrow> Crashed e w1)"

fun tf_loop :: "json_lib \<Rightarrow> (nat \<Rightarrow> string option) \<Rightarrow> nat \<Rightarrow> nat \<Rightarrow> world \<Rightarrow> outcome" where
  "tf_loop lib incoming k 0 w = Continue (print Shutting_down w)"
| "tf_loop lib incoming k (Suc n) w = (case tf_iteration lib (incoming k) w of
       Continue w1 \<Rightarrow> tf_loop lib incoming (Suc k) n w1
     | Crashed e w1 \<Rightarrow> Crashed e w1)"

definition tf_main :: "json_lib \<Rightarrow> (nat \<Rightarrow> string option) \<Rightarrow> nat \<Rightarrow> world \<Rightarrow> outcome" where
  "tf_main lib incoming n w =
     tf_loop lib incoming 0 n (write_text TF_RESPONSE_FILE [] (touch TF_REQUEST_FILE (print Banner w)))"

section \<open>The callers (\<open>bookbase.py\<close>)\<close>

text \<open>
  A caller measures time by the clock; in the model the clock advances by the length of each
  sleep and by nothing else, so after \<open>k\<close> sleeps of 0.1 s the caller has waited \<open>k / 10\<close>
  seconds. \<open>written k\<close> is what the service writes into the response file during sleep
  number \<open>k\<close>.

  The three JSON callers share one polling loop, written out three times in the source; they
  differ in the file names and in the two documents returned on bad content and on timeout.
\<close>

function poll_response ::
  "json_lib \<Rightarrow> (nat \<Rightarrow> string option) \<Rightarrow> real \<Rightarrow> string \<Rightarrow> json \<Rightarrow> json \<Rightarrow> nat \<Rightarrow> world
     \<Rightarrow> (exn + json) \<times> world" where
  "poll_response lib written timeout response_file invalid timed_out k w =
     (if real k / 10 < timeout then
        (let w1 = sleep response_file (written k) w in
         case files w1 response_file of
           None \<Rightarrow> (Inl (FileNotFoundError response_file), w1)
         | Some raw \<Rightarrow>
             (let content = py_strip raw in
              if content \<noteq> [] then
                (case loads lib content of
                   Decoded response \<Rightarrow> (Inr response, w1)
                 | JSONDecodeError \<Rightarrow> (Inr invalid, w1)
                 | OtherError \<Rightarrow> (Inl OtherException, w1))
              else poll_response lib written timeout response_file invalid timed_out (Suc k) w1))
      else (Inr timed_out, w))"
  by pat_completeness auto
termination
proof (relation "measure (\<lambda>(lib, written, timeout, response_file, invalid, timed_out, k, w).
                            nat \<lceil>timeout * 10\<rceil> - k)")
  show "wf (measure (\<lambda>(lib, written, timeout, response_file, invalid, timed_out, k, w).
                            nat \<lceil>timeout * 10\<rceil> - k))"
    by simp
next
  fix timeout :: real and k :: nat
  fix lib :: json_lib and written :: "nat \<Rightarrow> string option" and response_file :: string
  fix invalid timed_out :: json and w x :: world and x2 xa :: string
  assume "real k / 10 < timeout"
  then have "real k < timeout * 10" by simp
  then have "int k < \<lceil>timeout * 10\<rceil>" by linarith
  then have "k < nat \<lceil>timeout * 10\<rceil>" by linarith
  then show "((lib, written, timeout, response_file, invalid, timed_out, Suc k, x),
              (lib, written, timeout, response_file, invalid, timed_out, k, w))
             \<in> measure (\<lambda>(lib, written, timeout, response_file, invalid, timed_out, k, w).
                            nat \<lceil>timeout * 10\<rceil> - k)"
    by simp
qed

declare poll_response.simps [simp del]

definition call_rng_service ::
  "json_lib \<Rightarrow> (nat \<Rightarrow> string option) \<Rightarrow> json \<Rightarrow> real \<Rightarrow> world \<Rightarrow> (exn + json) \<times> world" where
  "call_rng_service lib written request_data timeout w =
     (let w1 = write_text ''rng_response.txt'' [] w;
          w2 = write_text ''rng_request.txt'' (dumps lib request_data) w1
      in poll_response lib written timeout ''rng_response.txt''
           (JObj [(''status'', JStr ''error''), (''message'', JStr ''Invalid JSON response'')])
           (JObj [(''status'', JStr ''error''), (''message'', JStr ''Microservice timeout'')])
           0 w2)"

definition call_text_formatter ::
  "json_lib \<Rightarrow> (nat \<Rightarrow> string option) \<Rightarrow> string \<Rightarrow> string \<Rightarrow> real \<Rightarrow> world
     \<Rightarrow> (exn + json) \<times> world" where
  "call_text_formatter lib written text format_type timeout w =
     (let w1 = write_text ''text_formatter_response.txt'' [] w;
          w2 = write_text ''text_formatter_request.txt''
                 (dumps lib (JObj [(''text'', JStr text), (''format'', JStr format_type)])) w1
      in poll_response lib written timeout ''text_formatter_response.txt''
           (JObj [(''success'', JBool False), (''error'', JStr ''Invalid JSON response'')])
           (JObj [(''success'', JBool False), (''error'', JStr ''Microservice timeout'')])
           0 w2)"

definition call_data_counter ::
  "json_lib \<Rightarrow> (nat \<Rightarrow> string option) \<Rightarrow> json list \<Rightarrow> real \<Rightarrow> world \<Rightarrow> (exn + json) \<times> world" where
  "call_data_counter lib written items timeout w =
     (let w1 = write_text ''data_counter_response.txt'' [] w;
          w2 = write_text ''data_counter_request.txt''
                 (dumps lib (JObj [(''mode'', JStr ''count''), (''data'', JArr items)])) w1
      in poll_response lib written timeout ''data_counter_response.txt''
           (JObj [(''success'', JBool False), (''error'', JStr ''Invalid JSON response'')])
           (JObj [(''success'', JBool False), (''error'', JStr ''Microservice timeout'')])
           0 w2)"

text \<open>The words service exchanges raw text; its output file is cleared only if it exists.\<close>

function poll_output :: "(nat \<Rightarrow> string option) \<Rightarrow> real \<Rightarrow> nat \<Rightarrow> world \<Rightarrow> string \<times> world" where
  "poll_output written timeout k w =
     (if real k / 10 < timeout then
        (let w1 = sleep ''output.csv'' (written k) w in
         case files w1 ''output.csv'' of
           None \<Rightarrow> poll_output written timeout (Suc k) w1
         | Some raw \<Rightarrow>
             (let content = py_strip raw in
              if content \<noteq> [] then (content, w1)
              else poll_output written timeout (Suc k) w1))
      else ([], w))"
  by pat_completeness auto
termination
proof (relation "measure (\<lambda>(written, timeout, k, w). nat \<lceil>timeout * 10\<rceil> - k)")
  show "wf (measure (\<lambda>(written, timeout, k, w). nat \<lceil>timeout * 10\<rceil> - k))"
    by simp
next
  fix timeout :: real and k :: nat and written :: "nat \<Rightarrow> string option" and w x :: world
  assume "real k / 10 < timeout"
  then have "real k < timeout * 10" by simp
  then have "int k < \<lceil>timeout * 10\<rceil>" by linarith
  then have "k < nat \<lceil>timeout * 10\<rceil>" by linarith
  then show "((written, timeout, Suc k, x), (written, timeout, k, w))
             \<in> measure (\<lambda>(written, timeout, k, w). nat \<lceil>timeout * 10\<rceil> - k)"
    by simp
next
  fix timeout :: real and k :: nat and written :: "nat \<Rightarrow> string option" and w x :: world
    and x2 xa :: string
  assume "real k / 10 < timeout"
  then have "real k < timeout * 10" by simp
  then have "int k < \<lceil>timeout * 10\<rceil>" by linarith
  then have "k < nat \<lceil>timeout * 10\<rceil>" by linarith
  then show "((written, timeout, Suc k, x), (written, timeout, k, w))
             \<in> measure (\<lambda>(written, timeout, k, w). nat \<lceil>timeout * 10\<rceil> - k)"
    by simp
qed

declare poll_output.simps [simp del]

definition call_words_service ::
  "(nat \<Rightarrow> string option) \<Rightarrow> string \<Rightarrow> real \<Rightarrow> world \<Rightarrow> string \<times> world" where
  "call_words_service written text timeout w =
     (let w1 = (if files w ''output.csv'' \<noteq> None then write_text ''output.csv'' [] w else w);
          w2 = write_text ''input.txt'' text w1
      in poll_output written timeout 0 w2)"

text \<open>The time a process has slept: 0.1 s for every sleep in its trace.\<close>

definition time_slept :: "effect list \<Rightarrow> real" where
  "time_slept tr = real (length (filter (\<lambda>e. e = Sleep) tr)) / 10"

definition waited :: "world \<Rightarrow> world \<Rightarrow> real" where
  "waited w w' = time_slept (trace w') - time_slept (trace w)"

text \<open>The content of a file as a caller tests it: missing, empty and white space are alike.\<close>

definition blank :: "string option \<Rightarrow> bool" where
  "blank content = (case content of None \<Rightarrow> True | Some raw \<Rightarrow> py_strip raw = [])"

section \<open>A JSON library to run the examples with\<close>

text \<open>
  The theorems below hold for every \<open>json_lib\<close>. To evaluate the program on concrete files,
  \<open>py_json\<close> provides \<open>json.dumps\<close> (with \<open>ensure_ascii\<close>, without and with \<open>indent=2\<close>) and
  \<open>json.loads\<close> for texts whose numbers are integers (no fraction, no exponent, no \<open>NaN\<close> or
  \<open>Infinity\<close>) and whose strings have no \<open>\\u\<close> escapes; a text outside this fragment is not
  used in any example.
\<close>

definition hex4 :: "nat \<Rightarrow> string" where
  "hex4 n = [hex_digit (n div 4096 mod 16), hex_digit (n div 256 mod 16),
             hex_digit (n div 16 mod 16), hex_digit (n mod 16)]"

definition encode_char :: "char \<Rightarrow> string" where
  "encode_char c =
     (if c = CHR 0x22 then [CHR 0x5C, CHR 0x22]
      else if c = CHR 0x5C then [CHR 0x5C, CHR 0x5C]
      else if c = CHR 0x0A then [CHR 0x5C, CHR ''n'']
      else if c = CHR 0x0D then [CHR 0x5C, CHR ''r'']
      else if c = CHR 0x09 then [CHR 0x5C, CHR ''t'']
      else if c = CHR 0x0C then [CHR 0x5C, CHR ''f'']
      else if c = CHR 0x08 then [CHR 0x5C, CHR ''b'']
      else if 32 \<le> code c \<and> code c \<le> 126 then [c]
      else [CHR 0x5C, CHR ''u''] @ hex4 (code c))"

definition encode_str :: "string \<Rightarrow> string" where
  "encode_str s = [CHR 0x22] @ concat (map encode_char s) @ [CHR 0x22]"

definition encode_float :: "string \<Rightarrow> string" where
  "encode_float r =
     (if r = ''nan'' then ''NaN'' else if r = ''inf'' then ''Infinity''
      else if r = ''-inf'' then ''-Infinity'' else r)"

definition newline_indent :: "nat option \<Rightarrow> nat \<Rightarrow> string" where
  "newline_indent indent level =
     (case indent of None \<Rightarrow> [] | Some n \<Rightarrow> CHR 0x0A # replicate (n * level) CHR '' '')"

definition item_separator :: "nat option \<Rightarrow> nat \<Rightarrow> string" where
  "item_separator indent level =
     (case indent of None \<Rightarrow> '', '' | Some n \<Rightarrow> '','' @ newline_indent indent level)"

fun encode :: "nat option \<Rightarrow> nat \<Rightarrow> json \<Rightarrow> string" where
  "encode indent level JNull = ''null''"
| "encode indent level (JBool b) = (if b then ''true'' else ''false'')"
| "encode indent level (JInt i) = str_int i"
| "encode indent level (JFloat r) = encode_float r"
| "encode indent level (JStr s) = encode_str s"
| "encode indent level (JArr xs) =
     (if xs = [] then ''[]''
      else ''['' @ newline_indent indent (Suc level)
           @ py_join (item_separator indent (Suc level)) (map (encode indent (Suc level)) xs)
           @ newline_indent indent level @ '']'')"
| "encode indent level (JObj kvs) =
     (if kvs = [] then ''{}''
      else ''{'' @ newline_indent indent (Suc level)
           @ py_join (item_separator indent (Suc level))
               (map (\<lambda>kv. encode_str (fst kv) @ '': '' @ encode indent (Suc level) (snd kv)) kvs)
           @ newline_indent indent level @ ''}'')"

definition json_dumps :: "nat option \<Rightarrow> json \<Rightarrow> string" where
  "json_dumps indent v = encode indent 0 v"

definition is_json_space :: "char \<Rightarrow> bool" where
  "is_json_space c = (c = CHR '' '' \<or> c = CHR 0x09 \<or> c = CHR 0x0A \<or> c = CHR 0x0D)"

definition skip_space :: "string \<Rightarrow> string" where
  "skip_space s = dropWhile is_json_space s"

definition unescape :: "char \<Rightarrow> char option" where
  "unescape c =
     (if c = CHR 0x22 \<or> c = CHR 0x5C \<or> c = CHR ''/'' then Some c
      else if c = CHR ''n'' then Some (CHR 0x0A)
      else if c = CHR ''r'' then Some (CHR 0x0D)
      else if c = CHR ''t'' then Some (CHR 0x09)
      else if c = CHR ''f'' then Some (CHR 0x0C)
      else if c = CHR ''b'' then Some (CHR 0x08)
      else None)"

text \<open>The characters of a string literal after its opening quote, up to the closing one.\<close>

fun scan_string :: "string \<Rightarrow> string \<Rightarrow> (string \<times> string) option" where
  "scan_string acc [] = None"
| "scan_string acc [c] = (if c = CHR 0x22 then Some (acc, []) else None)"
| "scan_string acc (c # e # cs) =
     (if c = CHR 0x22 then Some (acc, e # cs)
      else if c = CHR 0x5C then
        (case unescape e of None \<Rightarrow> None | Some x \<Rightarrow> scan_string (acc @ [x]) cs)
      else if code c < 32 then None
      else scan_string (acc @ [c]) (e # cs))"

fun digits_value :: "nat \<Rightarrow> string \<Rightarrow> nat" where
  "digits_value acc [] = acc"
| "digits_value acc (c # cs) = digits_value (10 * acc + (code c - 48)) cs"

definition scan_nat :: "string \<Rightarrow> (nat \<times> string) option" where
  "scan_nat s =
     (if starts_with ''0'' s then Some (0, tl s)
      else if takeWhile is_ascii_digit s = [] then None
      else Some (digits_value 0 (takeWhile is_ascii_digit s), dropWhile is_ascii_digit s))"

definition scan_int :: "string \<Rightarrow> (json \<times> string) option" where
  "scan_int s =
     (case scan_nat (if starts_with ''-'' s then tl s else s) of
        None \<Rightarrow> None
      | Some (n, r) \<Rightarrow>
          if starts_with ''.'' r \<or> starts_with ''e'' r \<or> starts_with ''E'' r then None
          else Some (JInt (if starts_with ''-'' s then - int n else int n), r))"

fun dict_set :: "string \<Rightarrow> json \<Rightarrow> (string \<times> json) list \<Rightarrow> (string \<times> json) list" where
  "dict_set k v [] = [(k, v)]"
| "dict_set k v ((k', v') # rest) =
     (if k = k' then (k', v) # rest else (k', v') # dict_set k v rest)"

text \<open>
  Recursive descent, with a bound on the number of calls; \<open>json_loads\<close> starts with a bound
  that the length of the text cannot exhaust.
\<close>

fun parse_value :: "nat \<Rightarrow> string \<Rightarrow> (json \<times> string) option"
  and parse_elements :: "nat \<Rightarrow> json list \<Rightarrow> string \<Rightarrow> (json \<times> string) option"
  and parse_members :: "nat \<Rightarrow> (string \<times> json) list \<Rightarrow> string \<Rightarrow> (json \<times> string) option" where
  "parse_value 0 s = None"
| "parse_value (Suc n) s =
     (if starts_with ''null'' s then Some (JNull, drop 4 s)
      else if starts_with ''true'' s then Some (JBool True, drop 4 s)
      else if starts_with ''false'' s then Some (JBool False, drop 5 s)
      else if starts_with [CHR 0x22] s then
        (case scan_string [] (tl s) of None \<Rightarrow> None | Some (x, r) \<Rightarrow> Some (JStr x, r))
      else if starts_with ''['' s then
        (if starts_with '']'' (skip_space (tl s)) then Some (JArr [], tl (skip_space (tl s)))
         else parse_elements n [] (skip_space (tl s)))
      else if starts_with ''{'' s then
        (if starts_with ''}'' (skip_space (tl s)) then Some (JObj [], tl (skip_space (tl s)))
         else parse_members n [] (skip_space (tl s)))
      else scan_int s)"
| "parse_elements 0 acc s = None"
| "parse_elements (Suc n) acc s =
     (case parse_value n s of
        None \<Rightarrow> None
      | Some (v, r) \<Rightarrow>
          if starts_with '','' (skip_space r) then
            parse_elements n (acc @ [v]) (skip_space (tl (skip_space r)))
          else if starts_with '']'' (skip_space r) then Some (JArr (acc @ [v]), tl (skip_space r))
          else None)"
| "parse_members 0 acc s = None"
| "parse_members (Suc n) acc s =
     (if starts_with [CHR 0x22] s then
        (case scan_string [] (tl s) of
           None \<Rightarrow> None
         | Some (key, r) \<Rightarrow>
             if starts_with '':'' (skip_space r) then
               (case parse_value n (skip_space (tl (skip_space r))) of
                  None \<Rightarrow> None
                | Some (v, r') \<Rightarrow>
                    if starts_with '','' (skip_space r') then
                      parse_members n (dict_set key v acc) (skip_space (tl (skip_space r')))
                    else if starts_with ''}'' (skip_space r') then
                      Some (JObj (dict_set key v acc), tl (skip_space r'))
                    else None)
             else None)
      else None)"

definition json_loads :: "string \<Rightarrow> decoded" where
  "json_loads s =
     (case parse_value (2 * length s + 2) (skip_space s) of
        None \<Rightarrow> JSONDecodeError
      | Some (v, r) \<Rightarrow> if skip_space r = [] then Decoded v else JSONDecodeError)"

definition py_json :: json_lib where
  "py_json = \<lparr>loads = json_loads, dumps = json_dumps None, dumps_indent = json_dumps (Some 2)\<rparr>"

definition no_files :: world where
  "no_files = \<lparr>files = Map.empty, trace = []\<rparr>"

section \<open>Sample inputs\<close>

definition abacba :: "json list" where
  "abacba = map JStr [''a'', ''b'', ''a'', ''c'', ''b'', ''a'']"

text \<open>A working directory in which both workers find the same text in their request files.\<close>

definition requests :: "string \<Rightarrow> world" where
  "requests content =
     \<lparr>files = [DC_REQUEST_FILE \<mapsto> content, TF_REQUEST_FILE \<mapsto> content], trace = []\<rparr>"

text \<open>A service that writes \<open>content\<close> into the response file during sleep number \<open>n\<close>.\<close>

definition answers_at :: "nat \<Rightarrow> string \<Rightarrow> nat \<Rightarrow> string option" where
  "answers_at n content k = (if k = n then Some content else None)"

section \<open>Properties of the handlers\<close>

subsection \<open>Counting\<close>

lemma map_of_Some_key: "map_of kvs k = Some v \<Longrightarrow> k \<in> fst ` set kvs"
  by (induction kvs) (auto split: if_splits)

lemma counter_add_set: "fst ` set (counter_add k kvs) = insert k (fst ` set kvs)"
  by (induction kvs) force+

lemma counter_add_distinct:
  "distinct (map fst kvs) \<Longrightarrow> distinct (map fst (counter_add k kvs))"
  by (induction kvs) (auto simp: counter_add_set)

lemma counter_add_map_of:
  "map_of (counter_add k kvs) k' =
     (if k' = k then Some (case map_of kvs k of None \<Rightarrow> 1 | Some n \<Rightarrow> Suc n) else map_of kvs k')"
  by (induction kvs) auto

lemma counter_fold_distinct:
  "distinct (map fst acc) \<Longrightarrow> distinct (map fst (foldl (\<lambda>acc k. counter_add k acc) acc xs))"
  by (induction xs arbitrary: acc) (auto simp: counter_add_distinct)

lemma counter_fold_keys:
  "fst ` set (foldl (\<lambda>acc k. counter_add k acc) acc xs) = fst ` set acc \<union> set xs"
  by (induction xs arbitrary: acc) (simp_all add: counter_add_set)

lemma counter_fold_map_of:
  "map_of (foldl (\<lambda>acc k. counter_add k acc) acc xs) k =
     (if k \<in> set xs \<or> k \<in> fst ` set acc
      then Some ((case map_of acc k of None \<Rightarrow> 0 | Some n \<Rightarrow> n) + count_list xs k)
      else None)"
proof (induction xs arbitrary: acc)
  case Nil
  show ?case
  proof (cases "map_of acc k")
    case None
    then have "k \<notin> fst ` set acc" by (simp add: map_of_eq_None_iff)
    with None show ?thesis by simp
  next
    case (Some n)
    then have "k \<in> fst ` set acc" by (rule map_of_Some_key)
    with Some show ?thesis by simp
  qed
next
  case (Cons x xs)
  show ?case
  proof (cases "map_of acc k")
    case None
    then have "k \<notin> fst ` set acc" by (simp add: map_of_eq_None_iff)
    with None show ?thesis
      by (simp add: Cons.IH counter_add_set counter_add_map_of)
  next
    case (Some n)
    then have "k \<in> fst ` set acc" by (rule map_of_Some_key)
    with Some show ?thesis
      by (simp add: Cons.IH counter_add_set counter_add_map_of)
  qed
qed

lemma Counter_distinct: "distinct (map fst (py_Counter xs))"
  by (simp add: py_Counter_def counter_fold_distinct)

lemma Counter_keys: "set (map fst (py_Counter xs)) = set xs"
  using counter_fold_keys [of "[]" xs] by (simp add: py_Counter_def)

lemma Counter_map_of:
  "map_of (py_Counter xs) k = (if k \<in> set xs then Some (count_list xs k) else None)"
  using counter_fold_map_of [of "[]" xs k] by (simp add: py_Counter_def)

lemma Counter_length: "length (py_Counter xs) = card (set xs)"
proof -
  have "length (py_Counter xs) = length (map fst (py_Counter xs))" by simp
  also have "\<dots> = card (set (map fst (py_Counter xs)))"
    using Counter_distinct [of xs] by (simp only: distinct_card)
  finally show ?thesis by (simp only: Counter_keys)
qed

lemma count_list_map_str:
  "count_list (map py_str d) (py_str x) = length (filter (\<lambda>y. py_str y = py_str x) d)"
  by (induction d) auto

text \<open>
  C7. For every list \<open>d\<close>, a request in mode "count" with data \<open>d\<close> is answered with success,
  \<open>total_count\<close> the length of \<open>d\<close>, \<open>unique_count\<close> the number of distinct strings \<open>str(x)\<close> for
  \<open>x\<close> in \<open>d\<close>, and \<open>item_counts\<close> a dictionary with exactly these strings as keys, each
  mapped to the number of items of \<open>d\<close> that have this string: items equal under \<open>str\<close> fall
  into one bucket. On \<open>["a","b","a","c","b","a"]\<close> the answer is 6, 3 and
  \<open>{"a":3,"b":2,"c":1}\<close>.
\<close>

theorem count_mode_counts:
  assumes "map_of request ''mode'' = Some (JStr m)"
    and "py_lower m = ''count''"
    and "map_of request ''data'' = Some (JArr d)"
  shows "dc_process_request (JObj request) =
           JObj [(''success'', JBool True),
                 (''total_count'', JInt (int (length d))),
                 (''unique_count'', JInt (int (card (py_str ` set d)))),
                 (''item_counts'', counts_obj (py_Counter (map py_str d))),
                 (''error'', JStr [])]
         \<and> distinct (map fst (py_Counter (map py_str d)))
         \<and> set (map fst (py_Counter (map py_str d))) = py_str ` set d
         \<and> (\<forall>x \<in> set d. map_of (py_Counter (map py_str d)) (py_str x)
               = Some (length (filter (\<lambda>y. py_str y = py_str x) d)))
         \<and> dc_process_request (JObj [(''mode'', JStr ''count''), (''data'', JArr abacba)]) =
             JObj [(''success'', JBool True), (''total_count'', JInt 6), (''unique_count'', JInt 3),
                   (''item_counts'', JObj [(''a'', JInt 3), (''b'', JInt 2), (''c'', JInt 1)]),
                   (''error'', JStr [])]"
proof -
  have "dc_try (JObj request) = count_items (JArr d)"
    using assms by (simp add: dc_try_def and_then_def py_get_def lower_method_def type_name_def)
  then have "dc_process_request (JObj request) =
           JObj [(''success'', JBool True),
                 (''total_count'', JInt (int (length d))),
                 (''unique_count'', JInt (int (card (py_str ` set d)))),
                 (''item_counts'', counts_obj (py_Counter (map py_str d))),
                 (''error'', JStr [])]"
    by (simp add: dc_process_request_def count_items_def Let_def Counter_length)
  moreover have "\<forall>x \<in> set d. map_of (py_Counter (map py_str d)) (py_str x)
               = Some (length (filter (\<lambda>y. py_str y = py_str x) d))"
    by (simp add: Counter_map_of count_list_map_str)
  moreover have "dc_process_request (JObj [(''mode'', JStr ''count''), (''data'', JArr abacba)]) =
             JObj [(''success'', JBool True), (''total_count'', JInt 6), (''unique_count'', JInt 3),
                   (''item_counts'', JObj [(''a'', JInt 3), (''b'', JInt 2), (''c'', JInt 1)]),
                   (''error'', JStr [])]"
    by code_simp
  ultimately show ?thesis
    using Counter_distinct [of "map py_str d"] Counter_keys [of "map py_str d"] by simp
qed

theorem count_mode_counts_witness:
  "map_of [(''data'', JArr [JInt 1, JStr ''1'', JStr ''x'']), (''mode'', JStr ''COUNT'')] ''mode''
     = Some (JStr ''COUNT'')
   \<and> py_lower ''COUNT'' = ''count''
   \<and> dc_process_request (JObj [(''data'', JArr [JInt 1, JStr ''1'', JStr ''x'']), (''mode'', JStr ''COUNT'')]) =
       JObj [(''success'', JBool True), (''total_count'', JInt 3), (''unique_count'', JInt 2),
             (''item_counts'', JObj [(''1'', JInt 2), (''x'', JInt 1)]),
             (''error'', JStr [])]"
proof -
  have m: "map_of [(''data'', JArr [JInt 1, JStr ''1'', JStr ''x'']), (''mode'', JStr ''COUNT'')] ''mode''
             = Some (JStr ''COUNT'')"
    by simp
  have d: "map_of [(''data'', JArr [JInt 1, JStr ''1'', JStr ''x'']), (''mode'', JStr ''COUNT'')] ''data''
             = Some (JArr [JInt 1, JStr ''1'', JStr ''x''])"
    by simp
  have l: "py_lower ''COUNT'' = ''count''" by code_simp
  have c: "card (py_str ` set [JInt 1, JStr ''1'', JStr ''x'']) = 2" by code_simp
  have k: "counts_obj (py_Counter (map py_str [JInt 1, JStr ''1'', JStr ''x'']))
             = JObj [(''1'', JInt 2), (''x'', JInt 1)]"
    by code_simp
  have "dc_process_request (JObj [(''data'', JArr [JInt 1, JStr ''1'', JStr ''x'']), (''mode'', JStr ''COUNT'')]) =
       JObj [(''success'', JBool True), (''total_count'', JInt 3), (''unique_count'', JInt 2),
             (''item_counts'', JObj [(''1'', JInt 2), (''x'', JInt 1)]),
             (''error'', JStr [])]"
    using conjunct1 [OF count_mode_counts [OF m l d]] unfolding c k by simp
  with m l show ?thesis by simp
qed

subsection \<open>Formatting\<close>

lemma re_sub_special_filter: "re_sub_special t = filter (\<lambda>c. \<not> special c) t"
  by (induction t) simp_all

lemma tf_try_format:
  assumes "map_of r ''format'' = Some (JStr f)" and "py_lower f = fmt"
    and "fmt \<in> set [''upper'', ''lower'', ''title'', ''clean'']"
  shows "tf_try (JObj r) =
           and_then (format_text (py_str (case map_of r ''text'' of None \<Rightarrow> JStr []
                                            | Some v \<Rightarrow> if v = JNull then JStr [] else v)) fmt)
             (\<lambda>res. Inr (tf_success res))"
proof -
  have "fmt \<noteq> []" using assms(3) by auto
  then show ?thesis
    using assms
    by (cases "map_of r ''text''")
      (simp_all add: tf_try_def and_then_def py_get_def lower_method_def)
qed

text \<open>
  C8. The answer of the formatter depends on the request through its \<open>text\<close> and \<open>format\<close>
  fields only. Format "clean" keeps exactly the characters that are letters \<open>a-z\<close>, \<open>A-Z\<close>,
  digits \<open>0-9\<close> or white space, in their order, and removes every other character. "the lord
  of the rings" in format "title" gives "The Lord Of The Rings", and "he said: 'hi!'" in
  format "clean" gives "he said hi".
\<close>

theorem format_depends_on_text_and_format:
  "(map_of r1 ''text'' = map_of r2 ''text'' \<and> map_of r1 ''format'' = map_of r2 ''format''
      \<longrightarrow> tf_process_request (JObj r1) = tf_process_request (JObj r2))
   \<and> (map_of r ''text'' = Some (JStr t) \<and> map_of r ''format'' = Some (JStr f)
        \<and> py_lower f = ''clean''
      \<longrightarrow> tf_process_request (JObj r) =
            tf_success (filter (\<lambda>c. is_ascii_lower c \<or> is_ascii_upper c \<or> is_ascii_digit c
                                      \<or> py_isspace c) t))
   \<and> tf_process_request (JObj [(''text'', JStr ''the lord of the rings''), (''format'', JStr ''title'')])
       = tf_success ''The Lord Of The Rings''
   \<and> tf_process_request (JObj [(''text'', JStr (''he said: '' @ quoted ''hi!'')), (''format'', JStr ''clean'')])
       = tf_success ''he said hi''"
proof -
  have a: "tf_process_request (JObj r1) = tf_process_request (JObj r2)"
    if "map_of r1 ''text'' = map_of r2 ''text''" and "map_of r1 ''format'' = map_of r2 ''format''"
    using that by (simp add: tf_process_request_def tf_try_def py_get_def)
  have b: "tf_process_request (JObj r) =
            tf_success (filter (\<lambda>c. is_ascii_lower c \<or> is_ascii_upper c \<or> is_ascii_digit c
                                      \<or> py_isspace c) t)"
    if "map_of r ''text'' = Some (JStr t)" and "map_of r ''format'' = Some (JStr f)"
      and "py_lower f = ''clean''"
    using that tf_try_format [of r f "''clean''"]
    by (simp add: tf_process_request_def and_then_def format_text_def py_str_def
        re_sub_special_filter special_def)
  have c: "tf_process_request (JObj [(''text'', JStr ''the lord of the rings''), (''format'', JStr ''title'')])
       = tf_success ''The Lord Of The Rings''"
    by code_simp
  have d: "tf_process_request (JObj [(''text'', JStr (''he said: '' @ quoted ''hi!'')), (''format'', JStr ''clean'')])
       = tf_success ''he said hi''"
    by code_simp
  show ?thesis using a b c d by blast
qed

theorem format_depends_on_text_and_format_witness:
  "tf_process_request (JObj [(''text'', JStr ''a-b''), (''format'', JStr ''Clean'')])
     = tf_process_request (JObj [(''format'', JStr ''Clean''), (''id'', JInt 7), (''text'', JStr ''a-b'')])
   \<and> tf_process_request (JObj [(''text'', JStr ''a-b''), (''format'', JStr ''Clean'')])
       = tf_success ''ab''"
proof -
  have l: "py_lower ''Clean'' = ''clean''" by code_simp
  have k: "filter (\<lambda>c. is_ascii_lower c \<or> is_ascii_upper c \<or> is_ascii_digit c \<or> py_isspace c) ''a-b''
             = ''ab''"
    by code_simp
  note T = format_depends_on_text_and_format
      [of "[(''text'', JStr ''a-b''), (''format'', JStr ''Clean'')]"
          "[(''format'', JStr ''Clean''), (''id'', JInt 7), (''text'', JStr ''a-b'')]"
          "[(''text'', JStr ''a-b''), (''format'', JStr ''Clean'')]" "''a-b''" "''Clean''"]
  have h1: "map_of [(''text'', JStr ''a-b''), (''format'', JStr ''Clean'')] ''text''
              = map_of [(''format'', JStr ''Clean''), (''id'', JInt 7), (''text'', JStr ''a-b'')] ''text''
            \<and> map_of [(''text'', JStr ''a-b''), (''format'', JStr ''Clean'')] ''format''
              = map_of [(''format'', JStr ''Clean''), (''id'', JInt 7), (''text'', JStr ''a-b'')] ''format''"
    by simp
  have h2: "map_of [(''text'', JStr ''a-b''), (''format'', JStr ''Clean'')] ''text'' = Some (JStr ''a-b'')
            \<and> map_of [(''text'', JStr ''a-b''), (''format'', JStr ''Clean'')] ''format'' = Some (JStr ''Clean'')
            \<and> py_lower ''Clean'' = ''clean''"
    using l by simp
  have A: "tf_process_request (JObj [(''text'', JStr ''a-b''), (''format'', JStr ''Clean'')])
     = tf_process_request (JObj [(''format'', JStr ''Clean''), (''id'', JInt 7), (''text'', JStr ''a-b'')])"
    by (rule mp [OF conjunct1 [OF T] h1])
  have B: "tf_process_request (JObj [(''text'', JStr ''a-b''), (''format'', JStr ''Clean'')])
       = tf_success ''ab''"
    using mp [OF conjunct1 [OF conjunct2 [OF T]] h2] unfolding k .
  show ?thesis using A B by (rule conjI)
qed

text \<open>
  C9, as the code has it. The format is compared after lower-casing, so "UPPER" is accepted.
  For every request whose format is missing, is not a string, or is a string that in lower
  case is none of upper, lower, title, clean, and for every request that is not a dictionary,
  the handler returns the failure response \<open>{success: false, result: "", error: msg}\<close> with a
  non-empty message; the handler is a total function, nothing is raised out of it.
\<close>

theorem invalid_format_reported:
  assumes "\<forall>kvs f. request = JObj kvs \<and> map_of kvs ''format'' = Some (JStr f)
             \<longrightarrow> py_lower f \<notin> set [''upper'', ''lower'', ''title'', ''clean'']"
  shows "\<exists>msg. msg \<noteq> [] \<and> tf_process_request request = tf_failure msg"
proof (cases request)
  case (JObj kvs)
  show ?thesis
  proof (cases "map_of kvs ''format''")
    case None
    with JObj show ?thesis
      by (simp add: tf_process_request_def tf_try_def and_then_def py_get_def lower_method_def
          py_lower_def tf_failure_def)
  next
    case (Some v)
    show ?thesis
    proof (cases v)
      case (JStr f)
      with Some JObj assms have "py_lower f \<notin> set [''upper'', ''lower'', ''title'', ''clean'']"
        by blast
      with JStr Some JObj show ?thesis
        by (simp add: tf_process_request_def tf_try_def and_then_def py_get_def lower_method_def
            tf_failure_def)
    qed (use Some JObj in \<open>simp_all add: tf_process_request_def tf_try_def and_then_def py_get_def
          lower_method_def tf_failure_def quoted_def\<close>)
  qed
qed (simp_all add: tf_process_request_def tf_try_def and_then_def py_get_def tf_failure_def
      quoted_def)

theorem invalid_format_reported_witness:
  "tf_process_request (JObj [(''text'', JStr ''abc''), (''format'', JStr ''shout'')])
     = tf_failure (''Invalid format type '' @ quoted ''shout'' @ ''. '' @ use_formats)
   \<and> (\<exists>msg. msg \<noteq> []
         \<and> tf_process_request (JObj [(''text'', JStr ''abc''), (''format'', JStr ''shout'')])
             = tf_failure msg)"
proof -
  have l: "py_lower ''shout'' = ''shout''" by code_simp
  have h: "\<forall>kvs f. JObj [(''text'', JStr ''abc''), (''format'', JStr ''shout'')] = JObj kvs
              \<and> map_of kvs ''format'' = Some (JStr f)
             \<longrightarrow> py_lower f \<notin> set [''upper'', ''lower'', ''title'', ''clean'']"
    using l by auto
  have e: "tf_process_request (JObj [(''text'', JStr ''abc''), (''format'', JStr ''shout'')])
     = tf_failure (''Invalid format type '' @ quoted ''shout'' @ ''. '' @ use_formats)"
    by code_simp
  show ?thesis
    using invalid_format_reported [OF h] e by simp
qed

theorem upper_case_format_accepted:
  "''UPPER'' \<notin> set [''upper'', ''lower'', ''title'', ''clean'']
   \<and> tf_process_request (JObj [(''text'', JStr ''abc''), (''format'', JStr ''UPPER'')])
       = JObj [(''success'', JBool True), (''result'', JStr ''ABC''), (''error'', JStr [])]"
proof -
  have "tf_process_request (JObj [(''text'', JStr ''abc''), (''format'', JStr ''UPPER'')])
       = JObj [(''success'', JBool True), (''result'', JStr ''ABC''), (''error'', JStr [])]"
    by code_simp
  then show ?thesis by simp
qed

section \<open>Properties of the worker loops\<close>

lemma py_strip_Nil: "py_strip [] = []"
  by (simp add: py_strip_def)

subsection \<open>Data counter\<close>

lemma dc_read_request_cases:
  "dc_read_request lib w = (None, w) \<or>
   (\<exists>request. dc_read_request lib w = (Some request, write_text DC_REQUEST_FILE [] w))"
  by (simp add: dc_read_request_def Let_def split: option.splits decoded.splits)

lemma dc_read_request_consumes:
  assumes "files w DC_REQUEST_FILE = Some raw" and "py_strip raw \<noteq> []"
    and "loads lib (py_strip raw) \<noteq> OtherError"
  shows "\<exists>request. dc_read_request lib w = (Some request, write_text DC_REQUEST_FILE [] w)"
  using assms by (simp add: dc_read_request_def Let_def split: decoded.splits)

lemma dc_handle_effects:
  assumes "dc_read_request lib w = (Some request, w1)"
  shows "\<exists>effects. trace (world_of (dc_handle lib w)) = trace w1 @ effects
           \<and> files (world_of (dc_handle lib w)) DC_REQUEST_FILE = files w1 DC_REQUEST_FILE"
  using assms
  by (simp add: dc_handle_def Let_def dc_write_response_def write_text_def print_def
      DC_REQUEST_FILE_def DC_RESPONSE_FILE_def
      split: sum.splits bool.splits)

lemma dc_handle_idle:
  assumes "files w DC_REQUEST_FILE = Some []"
  shows "dc_handle lib w = Continue w"
  using assms by (simp add: dc_handle_def dc_read_request_def py_strip_Nil)

lemma dc_handle_nothing_read:
  assumes "dc_read_request lib w = (None, w)"
  shows "dc_handle lib w = Continue w"
  using assms by (simp add: dc_handle_def)

lemma dc_cleared_first:
  assumes "files w DC_REQUEST_FILE = Some raw" and "py_strip raw \<noteq> []"
    and "loads lib (py_strip raw) \<noteq> OtherError"
  shows "(\<exists>effects. trace (world_of (dc_handle lib w)) = trace w @ Write DC_REQUEST_FILE [] # effects)
         \<and> files (world_of (dc_handle lib w)) DC_REQUEST_FILE = Some []"
proof -
  obtain request where r: "dc_read_request lib w = (Some request, write_text DC_REQUEST_FILE [] w)"
    using dc_read_request_consumes [OF assms] by blast
  from dc_handle_effects [OF r] show ?thesis
    by (auto simp: write_text_def)
qed

lemma dc_idle_or_cleared_first:
  "trace (world_of (dc_handle lib w)) = trace w
   \<or> (\<exists>effects. trace (world_of (dc_handle lib w)) = trace w @ Write DC_REQUEST_FILE [] # effects)"
proof -
  consider (idle) "dc_read_request lib w = (None, w)"
    | (read) request where "dc_read_request lib w = (Some request, write_text DC_REQUEST_FILE [] w)"
    using dc_read_request_cases [of lib w] by blast
  then show ?thesis
  proof cases
    case idle
    then show ?thesis by (simp add: dc_handle_nothing_read)
  next
    case read
    from dc_handle_effects [OF read] show ?thesis
      by (auto simp: write_text_def)
  qed
qed

lemma dc_not_handled_twice:
  "dc_handle lib (world_of (dc_handle lib w)) = Continue (world_of (dc_handle lib w))"
proof -
  consider (idle) "dc_read_request lib w = (None, w)"
    | (read) request where "dc_read_request lib w = (Some request, write_text DC_REQUEST_FILE [] w)"
    using dc_read_request_cases [of lib w] by blast
  then show ?thesis
  proof cases
    case idle
    then show ?thesis by (simp add: dc_handle_nothing_read)
  next
    case read
    from dc_handle_effects [OF read]
    have "files (world_of (dc_handle lib w)) DC_REQUEST_FILE = Some []"
      by (auto simp: write_text_def)
    then show ?thesis by (rule dc_handle_idle)
  qed
qed

lemma dc_loop_idle:
  assumes "files w DC_REQUEST_FILE = Some []"
  shows "dc_loop lib (\<lambda>k. None) k n w
           = Continue (print Shutting_down (w\<lparr>trace := trace w @ replicate n Sleep\<rparr>))"
  using assms
proof (induction n arbitrary: k w)
  case 0
  then show ?case by simp
next
  case (Suc n)
  have step: "dc_iteration lib None w = Continue (w\<lparr>trace := trace w @ [Sleep]\<rparr>)"
    using Suc.prems by (simp add: dc_iteration_def dc_handle_idle sleep_def)
  have "files (w\<lparr>trace := trace w @ [Sleep]\<rparr>) DC_REQUEST_FILE = Some []"
    using Suc.prems by simp
  from Suc.IH [OF this, of "Suc k"] step show ?case
    by (simp add: replicate_app_Cons_same)
qed

lemma dc_handle_invalid:
  assumes "files w DC_REQUEST_FILE = Some raw" and "py_strip raw \<noteq> []"
    and "loads lib (py_strip raw) = JSONDecodeError"
  shows "dc_handle lib w =
           Continue (write_text DC_RESPONSE_FILE
                       (dumps_indent lib (dc_failure ''Invalid JSON in request file''))
                       (write_text DC_REQUEST_FILE [] w))"
  using assms
  by (simp add: dc_handle_def dc_read_request_def Let_def truthy_def py_in_def py_item_def
      dc_write_response_def dc_failure_def)

lemma dc_loop_invalid:
  assumes "files w DC_REQUEST_FILE = Some raw" and "py_strip raw \<noteq> []"
    and "loads lib (py_strip raw) = JSONDecodeError"
  shows "dc_loop lib (\<lambda>k. None) 0 (Suc n) w =
           Continue (print Shutting_down
             ((world_of (dc_handle lib w))
                \<lparr>trace := trace (world_of (dc_handle lib w)) @ replicate (Suc n) Sleep\<rparr>))"
proof -
  let ?w1 = "world_of (dc_handle lib w)"
  have h: "dc_handle lib w = Continue ?w1"
    using dc_handle_invalid [OF assms] by simp
  have c: "files ?w1 DC_REQUEST_FILE = Some []"
    using dc_handle_invalid [OF assms]
    by (simp add: write_text_def DC_REQUEST_FILE_def DC_RESPONSE_FILE_def)
  have step: "dc_iteration lib None w = Continue (?w1\<lparr>trace := trace ?w1 @ [Sleep]\<rparr>)"
    by (subst dc_iteration_def, subst h) (simp add: sleep_def)
  have "files (?w1\<lparr>trace := trace ?w1 @ [Sleep]\<rparr>) DC_REQUEST_FILE = Some []"
    using c by simp
  from dc_loop_idle [OF this, of lib 1 n] step show ?thesis
    by (simp add: replicate_app_Cons_same)
qed

lemma dc_handle_dispatch:
  assumes "dc_read_request lib w = (Some request, w1)" and "truthy request"
    and "py_in ''_parse_error'' request = Inr False"
  shows "dc_handle lib w =
           Continue (dc_write_response lib (dc_process_request request)
                       (print (Sending_response (dc_process_request request))
                          (print (Received_request request) w1)))"
  using assms by (simp add: dc_handle_def Let_def)

lemma dc_process_request_raised:
  assumes "dc_try request = Inl e"
  shows "dc_process_request request = dc_failure (str_exn e)"
  using assms by (simp add: dc_process_request_def)

subsection \<open>Text formatter\<close>

lemma tf_read_request_cases:
  "tf_read_request lib w = (None, w) \<or>
   (\<exists>request. tf_read_request lib w = (Some request, write_text TF_REQUEST_FILE [] w))"
  by (simp add: tf_read_request_def Let_def split: option.splits decoded.splits)

lemma tf_read_request_consumes:
  assumes "files w TF_REQUEST_FILE = Some raw" and "py_strip raw \<noteq> []"
    and "loads lib (py_strip raw) \<noteq> OtherError"
  shows "\<exists>request. tf_read_request lib w = (Some request, write_text TF_REQUEST_FILE [] w)"
  using assms by (simp add: tf_read_request_def Let_def split: decoded.splits)

lemma tf_handle_effects:
  assumes "tf_read_request lib w = (Some request, w1)"
  shows "\<exists>effects. trace (world_of (tf_handle lib w)) = trace w1 @ effects
           \<and> files (world_of (tf_handle lib w)) TF_REQUEST_FILE = files w1 TF_REQUEST_FILE"
  using assms
  by (simp add: tf_handle_def Let_def tf_write_response_def write_text_def print_def
      TF_REQUEST_FILE_def TF_RESPONSE_FILE_def
      split: sum.splits bool.splits)

lemma tf_handle_idle:
  assumes "files w TF_REQUEST_FILE = Some []"
  shows "tf_handle lib w = Continue w"
  using assms by (simp add: tf_handle_def tf_read_request_def py_strip_Nil)

lemma tf_handle_nothing_read:
  assumes "tf_read_request lib w = (None, w)"
  shows "tf_handle lib w = Continue w"
  using assms by (simp add: tf_handle_def)

lemma tf_cleared_first:
  assumes "files w TF_REQUEST_FILE = Some raw" and "py_strip raw \<noteq> []"
    and "loads lib (py_strip raw) \<noteq> OtherError"
  shows "(\<exists>effects. trace (world_of (tf_handle lib w)) = trace w @ Write TF_REQUEST_FILE [] # effects)
         \<and> files (world_of (tf_handle lib w)) TF_REQUEST_FILE = Some []"
proof -
  obtain request where r: "tf_read_request lib w = (Some request, write_text TF_REQUEST_FILE [] w)"
    using tf_read_request_consumes [OF assms] by blast
  from tf_handle_effects [OF r] show ?thesis
    by (auto simp: write_text_def)
qed

lemma tf_idle_or_cleared_first:
  "trace (world_of (tf_handle lib w)) = trace w
   \<or> (\<exists>effects. trace (world_of (tf_handle lib w)) = trace w @ Write TF_REQUEST_FILE [] # effects)"
proof -
  consider (idle) "tf_read_request lib w = (None, w)"
    | (read) request where "tf_read_request lib w = (Some request, write_text TF_REQUEST_FILE [] w)"
    using tf_read_request_cases [of lib w] by blast
  then show ?thesis
  proof cases
    case idle
    then show ?thesis by (simp add: tf_handle_nothing_read)
  next
    case read
    from tf_handle_effects [OF read] show ?thesis
      by (auto simp: write_text_def)
  qed
qed

lemma tf_not_handled_twice:
  "tf_handle lib (world_of (tf_handle lib w)) = Continue (world_of (tf_handle lib w))"
proof -
  consider (idle) "tf_read_request lib w = (None, w)"
    | (read) request where "tf_read_request lib w = (Some request, write_text TF_REQUEST_FILE [] w)"
    using tf_read_request_cases [of lib w] by blast
  then show ?thesis
  proof cases
    case idle
    then show ?thesis by (simp add: tf_handle_nothing_read)
  next
    case read
    from tf_handle_effects [OF read]
    have "files (world_of (tf_handle lib w)) TF_REQUEST_FILE = Some []"
      by (auto simp: write_text_def)
    then show ?thesis by (rule tf_handle_idle)
  qed
qed

lemma tf_loop_idle:
  assumes "files w TF_REQUEST_FILE = Some []"
  shows "tf_loop lib (\<lambda>k. None) k n w
           = Continue (print Shutting_down (w\<lparr>trace := trace w @ replicate n Sleep\<rparr>))"
  using assms
proof (induction n arbitrary: k w)
  case 0
  then show ?case by simp
next
  case (Suc n)
  have step: "tf_iteration lib None w = Continue (w\<lparr>trace := trace w @ [Sleep]\<rparr>)"
    using Suc.prems by (simp add: tf_iteration_def tf_handle_idle sleep_def)
  have "files (w\<lparr>trace := trace w @ [Sleep]\<rparr>) TF_REQUEST_FILE = Some []"
    using Suc.prems by simp
  from Suc.IH [OF this, of "Suc k"] step show ?case
    by (simp add: replicate_app_Cons_same)
qed

lemma tf_handle_invalid:
  assumes "files w TF_REQUEST_FILE = Some raw" and "py_strip raw \<noteq> []"
    and "loads lib (py_strip raw) = JSONDecodeError"
  shows "tf_handle lib w =
           Continue (write_text TF_RESPONSE_FILE
                       (dumps_indent lib (tf_failure ''Invalid JSON in request file''))
                       (write_text TF_REQUEST_FILE [] w))"
  using assms
  by (simp add: tf_handle_def tf_read_request_def Let_def truthy_def py_in_def py_item_def
      tf_write_response_def tf_failure_def tf_is_parse_error_def and_then_def py_len_def)

lemma tf_loop_invalid:
  assumes "files w TF_REQUEST_FILE = Some raw" and "py_strip raw \<noteq> []"
    and "loads lib (py_strip raw) = JSONDecodeError"
  shows "tf_loop lib (\<lambda>k. None) 0 (Suc n) w =
           Continue (print Shutting_down
             ((world_of (tf_handle lib w))
                \<lparr>trace := trace (world_of (tf_handle lib w)) @ replicate (Suc n) Sleep\<rparr>))"
proof -
  let ?w1 = "world_of (tf_handle lib w)"
  have h: "tf_handle lib w = Continue ?w1"
    using tf_handle_invalid [OF assms] by simp
  have c: "files ?w1 TF_REQUEST_FILE = Some []"
    using tf_handle_invalid [OF assms]
    by (simp add: write_text_def TF_REQUEST_FILE_def TF_RESPONSE_FILE_def)
  have step: "tf_iteration lib None w = Continue (?w1\<lparr>trace := trace ?w1 @ [Sleep]\<rparr>)"
    by (subst tf_iteration_def, subst h) (simp add: sleep_def)
  have "files (?w1\<lparr>trace := trace ?w1 @ [Sleep]\<rparr>) TF_REQUEST_FILE = Some []"
    using c by simp
  from tf_loop_idle [OF this, of lib 1 n] step show ?thesis
    by (simp add: replicate_app_Cons_same)
qed

lemma tf_handle_dispatch:
  assumes "tf_read_request lib w = (Some request, w1)" and "truthy request"
    and "tf_is_parse_error request = Inr False"
  shows "tf_handle lib w =
           Continue (tf_write_response lib (tf_process_request request)
                       (print (Sending_response (tf_process_request request))
                          (print (Received_request request) w1)))"
  using assms by (simp add: tf_handle_def Let_def)

lemma tf_process_request_raised:
  assumes "tf_try request = Inl e"
  shows "tf_process_request request = tf_failure (str_exn e)"
  using assms by (simp add: tf_process_request_def)

subsection \<open>Consuming a request\<close>

text \<open>
  C3. A pass of either worker that finds a request (the content of the request file, stripped
  of white space, is not empty, and \<open>json.loads\<close> decodes it or rejects it with
  \<open>JSONDecodeError\<close>) empties the request file, and that write is the first thing the pass
  does: printing, dispatching to the handler and writing the response all come after it.
  Every pass either does nothing or starts with that write, and the pass that follows, with no
  new content from a caller, does nothing: no content is handled twice.
\<close>

theorem request_cleared_before_dispatch:
  "(files w DC_REQUEST_FILE = Some raw \<and> py_strip raw \<noteq> [] \<and> loads lib (py_strip raw) \<noteq> OtherError
      \<longrightarrow> (\<exists>effects. trace (world_of (dc_handle lib w))
                          = trace w @ Write DC_REQUEST_FILE [] # effects)
           \<and> files (world_of (dc_handle lib w)) DC_REQUEST_FILE = Some [])
   \<and> (trace (world_of (dc_handle lib w)) = trace w
        \<or> (\<exists>effects. trace (world_of (dc_handle lib w))
                         = trace w @ Write DC_REQUEST_FILE [] # effects))
   \<and> dc_handle lib (world_of (dc_handle lib w)) = Continue (world_of (dc_handle lib w))
   \<and> (files w TF_REQUEST_FILE = Some raw' \<and> py_strip raw' \<noteq> [] \<and> loads lib (py_strip raw') \<noteq> OtherError
      \<longrightarrow> (\<exists>effects. trace (world_of (tf_handle lib w))
                          = trace w @ Write TF_REQUEST_FILE [] # effects)
           \<and> files (world_of (tf_handle lib w)) TF_REQUEST_FILE = Some [])
   \<and> (trace (world_of (tf_handle lib w)) = trace w
        \<or> (\<exists>effects. trace (world_of (tf_handle lib w))
                         = trace w @ Write TF_REQUEST_FILE [] # effects))
   \<and> tf_handle lib (world_of (tf_handle lib w)) = Continue (world_of (tf_handle lib w))"
  using dc_cleared_first [of w raw lib] dc_idle_or_cleared_first [of lib w]
    dc_not_handled_twice [of lib w]
    tf_cleared_first [of w raw' lib] tf_idle_or_cleared_first [of lib w]
    tf_not_handled_twice [of lib w]
  by blast

theorem request_cleared_before_dispatch_witness:
  "files (world_of (dc_handle py_json (requests ''{oops''))) DC_REQUEST_FILE = Some []
   \<and> files (world_of (tf_handle py_json (requests ''[1, 2]''))) TF_REQUEST_FILE = Some []"
proof -
  have a: "files (requests ''{oops'') DC_REQUEST_FILE = Some ''{oops''
           \<and> py_strip ''{oops'' \<noteq> [] \<and> loads py_json (py_strip ''{oops'') \<noteq> OtherError"
    by code_simp
  have b: "files (requests ''[1, 2]'') TF_REQUEST_FILE = Some ''[1, 2]''
           \<and> py_strip ''[1, 2]'' \<noteq> [] \<and> loads py_json (py_strip ''[1, 2]'') \<noteq> OtherError"
    by code_simp
  note dc = request_cleared_before_dispatch [of "requests ''{oops''" "''{oops''" py_json "''{oops''"]
  note tf = request_cleared_before_dispatch [of "requests ''[1, 2]''" "''[1, 2]''" py_json "''[1, 2]''"]
  have "files (world_of (dc_handle py_json (requests ''{oops''))) DC_REQUEST_FILE = Some []"
    using mp [OF conjunct1 [OF dc] a] by (rule conjunct2)
  moreover have "files (world_of (tf_handle py_json (requests ''[1, 2]''))) TF_REQUEST_FILE = Some []"
    using mp [OF conjunct1 [OF conjunct2 [OF conjunct2 [OF conjunct2 [OF tf]]]] b]
    by (rule conjunct2)
  ultimately show ?thesis by (rule conjI)
qed

subsection \<open>Content that is not JSON\<close>

text \<open>
  C4, as the code has it. When the content of a worker's request file, stripped of white
  space, is not empty and \<open>json.loads\<close> rejects it with \<open>JSONDecodeError\<close>, the pass empties the
  request file, writes an error envelope to the response file and goes on. The envelope is
  \<open>{success: false, error: "Invalid JSON in request file"}\<close> for the data counter and
  \<open>{success: false, result: "", error: "Invalid JSON in request file"}\<close> for the text formatter.
  Without new content from a caller the following passes only sleep, however many they are.
\<close>

theorem invalid_request_reported:
  "(files w DC_REQUEST_FILE = Some raw \<and> py_strip raw \<noteq> [] \<and> loads lib (py_strip raw) = JSONDecodeError
      \<longrightarrow> dc_handle lib w =
             Continue (write_text DC_RESPONSE_FILE
                         (dumps_indent lib (JObj [(''success'', JBool False),
                                                  (''error'', JStr ''Invalid JSON in request file'')]))
                         (write_text DC_REQUEST_FILE [] w))
           \<and> dc_loop lib (\<lambda>k. None) 0 (Suc n) w =
               Continue (print Shutting_down
                 ((world_of (dc_handle lib w))
                    \<lparr>trace := trace (world_of (dc_handle lib w)) @ replicate (Suc n) Sleep\<rparr>)))
   \<and> (files w TF_REQUEST_FILE = Some raw' \<and> py_strip raw' \<noteq> [] \<and> loads lib (py_strip raw') = JSONDecodeError
      \<longrightarrow> tf_handle lib w =
             Continue (write_text TF_RESPONSE_FILE
                         (dumps_indent lib (JObj [(''success'', JBool False), (''result'', JStr []),
                                                  (''error'', JStr ''Invalid JSON in request file'')]))
                         (write_text TF_REQUEST_FILE [] w))
           \<and> tf_loop lib (\<lambda>k. None) 0 (Suc n) w =
               Continue (print Shutting_down
                 ((world_of (tf_handle lib w))
                    \<lparr>trace := trace (world_of (tf_handle lib w)) @ replicate (Suc n) Sleep\<rparr>)))"
  using dc_handle_invalid [of w raw lib] dc_loop_invalid [of w raw lib n]
    tf_handle_invalid [of w raw' lib] tf_loop_invalid [of w raw' lib n]
  by (simp add: dc_failure_def tf_failure_def)

theorem invalid_request_reported_witness:
  "dc_handle py_json (requests ''{oops'') =
     Continue (write_text DC_RESPONSE_FILE
                 (dumps_indent py_json (JObj [(''success'', JBool False),
                                              (''error'', JStr ''Invalid JSON in request file'')]))
                 (write_text DC_REQUEST_FILE [] (requests ''{oops'')))
   \<and> tf_handle py_json (requests ''{oops'') =
       Continue (write_text TF_RESPONSE_FILE
                   (dumps_indent py_json (JObj [(''success'', JBool False), (''result'', JStr []),
                                                (''error'', JStr ''Invalid JSON in request file'')]))
                   (write_text TF_REQUEST_FILE [] (requests ''{oops'')))"
proof -
  have a: "files (requests ''{oops'') DC_REQUEST_FILE = Some ''{oops''
           \<and> py_strip ''{oops'' \<noteq> [] \<and> loads py_json (py_strip ''{oops'') = JSONDecodeError"
    by code_simp
  have b: "files (requests ''{oops'') TF_REQUEST_FILE = Some ''{oops''
           \<and> py_strip ''{oops'' \<noteq> [] \<and> loads py_json (py_strip ''{oops'') = JSONDecodeError"
    by code_simp
  note T = invalid_request_reported [of "requests ''{oops''" "''{oops''" py_json 0 "''{oops''"]
  show ?thesis
    using conjunct1 [OF mp [OF conjunct1 [OF T] a]] conjunct1 [OF mp [OF conjunct2 [OF T] b]]
    by (rule conjI)
qed

text \<open>
  The message of the envelope is not "invalid payload": on the content \<open>{oops\<close> the data
  counter writes the envelope with the message "Invalid JSON in request file".
\<close>

theorem invalid_request_message:
  "files (world_of (dc_handle py_json (requests ''{oops''))) DC_RESPONSE_FILE
     = Some (json_dumps (Some 2) (JObj [(''success'', JBool False),
                                        (''error'', JStr ''Invalid JSON in request file'')]))
   \<and> json_dumps (Some 2) (JObj [(''success'', JBool False),
                                (''error'', JStr ''Invalid JSON in request file'')])
     \<noteq> json_dumps (Some 2) (JObj [(''success'', JBool False), (''error'', JStr ''invalid payload'')])"
  by code_simp

subsection \<open>Exceptions in a handler\<close>

text \<open>
  C6. When a worker dispatches a request to its handler (the request is truthy and is not
  taken for a parse error), the pass goes on to its sleep whatever the handler does. If the
  body of the handler raises \<open>e\<close>, the handler returns the envelope with \<open>success: false\<close> and
  the message \<open>str(e)\<close> (the text formatter adds \<open>result: ""\<close>), and the pass writes that envelope
  to the response file.
\<close>

theorem handler_exception_reported:
  "(dc_read_request lib w = (Some request, w1) \<and> truthy request
      \<and> py_in ''_parse_error'' request = Inr False
      \<longrightarrow> (\<exists>w2. dc_iteration lib incoming w = Continue w2)
           \<and> (\<forall>e. dc_try request = Inl e \<longrightarrow>
                 dc_process_request request
                   = JObj [(''success'', JBool False), (''error'', JStr (str_exn e))]
                 \<and> files (world_of (dc_handle lib w)) DC_RESPONSE_FILE
                     = Some (dumps_indent lib
                         (JObj [(''success'', JBool False), (''error'', JStr (str_exn e))]))))
   \<and> (tf_read_request lib w = (Some request', w1') \<and> truthy request'
      \<and> tf_is_parse_error request' = Inr False
      \<longrightarrow> (\<exists>w2. tf_iteration lib incoming w = Continue w2)
           \<and> (\<forall>e. tf_try request' = Inl e \<longrightarrow>
                 tf_process_request request'
                   = JObj [(''success'', JBool False), (''result'', JStr []),
                           (''error'', JStr (str_exn e))]
                 \<and> files (world_of (tf_handle lib w)) TF_RESPONSE_FILE
                     = Some (dumps_indent lib
                         (JObj [(''success'', JBool False), (''result'', JStr []),
                                (''error'', JStr (str_exn e))]))))"
proof -
  have dc: "(\<exists>w2. dc_iteration lib incoming w = Continue w2)
           \<and> (\<forall>e. dc_try request = Inl e \<longrightarrow>
                 dc_process_request request
                   = JObj [(''success'', JBool False), (''error'', JStr (str_exn e))]
                 \<and> files (world_of (dc_handle lib w)) DC_RESPONSE_FILE
                     = Some (dumps_indent lib
                         (JObj [(''success'', JBool False), (''error'', JStr (str_exn e))])))"
    if h: "dc_read_request lib w = (Some request, w1)" "truthy request"
      "py_in ''_parse_error'' request = Inr False"
  proof -
    note d = dc_handle_dispatch [OF h]
    have "\<exists>w2. dc_iteration lib incoming w = Continue w2"
      by (simp add: dc_iteration_def d)
    moreover have "files (world_of (dc_handle lib w)) DC_RESPONSE_FILE
                     = Some (dumps_indent lib (dc_process_request request))"
      by (simp add: d dc_write_response_def write_text_def)
    ultimately show ?thesis
      by (auto simp: dc_process_request_raised dc_failure_def)
  qed
  have tf: "(\<exists>w2. tf_iteration lib incoming w = Continue w2)
           \<and> (\<forall>e. tf_try request' = Inl e \<longrightarrow>
                 tf_process_request request'
                   = JObj [(''success'', JBool False), (''result'', JStr []),
                           (''error'', JStr (str_exn e))]
                 \<and> files (world_of (tf_handle lib w)) TF_RESPONSE_FILE
                     = Some (dumps_indent lib
                         (JObj [(''success'', JBool False), (''result'', JStr []),
                                (''error'', JStr (str_exn e))])))"
    if h: "tf_read_request lib w = (Some request', w1')" "truthy request'"
      "tf_is_parse_error request' = Inr False"
  proof -
    note d = tf_handle_dispatch [OF h]
    have "\<exists>w2. tf_iteration lib incoming w = Continue w2"
      by (simp add: tf_iteration_def d)
    moreover have "files (world_of (tf_handle lib w)) TF_RESPONSE_FILE
                     = Some (dumps_indent lib (tf_process_request request'))"
      by (simp add: d tf_write_response_def write_text_def)
    ultimately show ?thesis
      by (auto simp: tf_process_request_raised tf_failure_def)
  qed
  show ?thesis using dc tf by blast
qed

theorem handler_exception_reported_witness:
  "files (world_of (dc_handle py_json (requests ''[1, 2]''))) DC_RESPONSE_FILE
     = Some (dumps_indent py_json
         (JObj [(''success'', JBool False),
                (''error'', JStr (str_exn (AttributeError ''list'' ''get'')))]))
   \<and> files (world_of (tf_handle py_json (requests ''[1, 2]''))) TF_RESPONSE_FILE
     = Some (dumps_indent py_json
         (JObj [(''success'', JBool False), (''result'', JStr []),
                (''error'', JStr (str_exn (AttributeError ''list'' ''get'')))]))"
proof -
  have f: "files (requests ''[1, 2]'') DC_REQUEST_FILE = Some ''[1, 2]''"
    "files (requests ''[1, 2]'') TF_REQUEST_FILE = Some ''[1, 2]''"
    "py_strip ''[1, 2]'' \<noteq> []"
    "loads py_json (py_strip ''[1, 2]'') = Decoded (JArr [JInt 1, JInt 2])"
    by code_simp+
  have g: "truthy (JArr [JInt 1, JInt 2])"
    "py_in ''_parse_error'' (JArr [JInt 1, JInt 2]) = Inr False"
    "tf_is_parse_error (JArr [JInt 1, JInt 2]) = Inr False"
    by code_simp+
  have a: "dc_read_request py_json (requests ''[1, 2]'')
             = (Some (JArr [JInt 1, JInt 2]), write_text DC_REQUEST_FILE [] (requests ''[1, 2]''))
           \<and> truthy (JArr [JInt 1, JInt 2])
           \<and> py_in ''_parse_error'' (JArr [JInt 1, JInt 2]) = Inr False"
    using f g by (simp add: dc_read_request_def)
  have b: "tf_read_request py_json (requests ''[1, 2]'')
             = (Some (JArr [JInt 1, JInt 2]), write_text TF_REQUEST_FILE [] (requests ''[1, 2]''))
           \<and> truthy (JArr [JInt 1, JInt 2])
           \<and> tf_is_parse_error (JArr [JInt 1, JInt 2]) = Inr False"
    using f g by (simp add: tf_read_request_def)
  have c: "dc_try (JArr [JInt 1, JInt 2]) = Inl (AttributeError ''list'' ''get'')"
    by code_simp
  have d: "tf_try (JArr [JInt 1, JInt 2]) = Inl (AttributeError ''list'' ''get'')"
    by code_simp
  note T = handler_exception_reported
    [of py_json "requests ''[1, 2]''" "JArr [JInt 1, JInt 2]"
        "write_text DC_REQUEST_FILE [] (requests ''[1, 2]'')" None "JArr [JInt 1, JInt 2]"
        "write_text TF_REQUEST_FILE [] (requests ''[1, 2]'')"]
  have "files (world_of (dc_handle py_json (requests ''[1, 2]''))) DC_RESPONSE_FILE
     = Some (dumps_indent py_json
         (JObj [(''success'', JBool False),
                (''error'', JStr (str_exn (AttributeError ''list'' ''get'')))]))"
    using conjunct2 [OF mp [OF conjunct1 [OF T] a]] c by blast
  moreover have "files (world_of (tf_handle py_json (requests ''[1, 2]''))) TF_RESPONSE_FILE
     = Some (dumps_indent py_json
         (JObj [(''success'', JBool False), (''result'', JStr []),
                (''error'', JStr (str_exn (AttributeError ''list'' ''get'')))]))"
    using conjunct2 [OF mp [OF conjunct2 [OF T] b]] d by blast
  ultimately show ?thesis by (rule conjI)
qed

subsection \<open>A request that looks like a parse error\<close>

text \<open>
  C10. When the request file of the text formatter holds a JSON object with the single key
  \<open>error\<close>, the worker takes it for the marker that \<open>read_request\<close> returns on a parse error:
  it empties the request file and writes \<open>{success: false, result: "", error: v}\<close> with the value
  \<open>v\<close> of that key, and these two writes are all it does; nothing is printed and the handler
  is not called. The handler would have answered that the format is missing.
\<close>

theorem error_only_request_not_dispatched:
  assumes "files w TF_REQUEST_FILE = Some raw" and "py_strip raw \<noteq> []"
    and "loads lib (py_strip raw) = Decoded (JObj [(''error'', v)])"
  shows "tf_handle lib w =
           Continue (write_text TF_RESPONSE_FILE
                       (dumps_indent lib (JObj [(''success'', JBool False), (''result'', JStr []),
                                                (''error'', v)]))
                       (write_text TF_REQUEST_FILE [] w))
         \<and> trace (world_of (tf_handle lib w)) =
             trace w @ [Write TF_REQUEST_FILE [],
                        Write TF_RESPONSE_FILE
                          (dumps_indent lib (JObj [(''success'', JBool False), (''result'', JStr []),
                                                   (''error'', v)]))]
         \<and> tf_process_request (JObj [(''error'', v)])
             = tf_failure (''Missing '' @ quoted ''format'' @ '' field. '' @ use_formats)"
proof -
  have "tf_handle lib w =
           Continue (write_text TF_RESPONSE_FILE
                       (dumps_indent lib (JObj [(''success'', JBool False), (''result'', JStr []),
                                                (''error'', v)]))
                       (write_text TF_REQUEST_FILE [] w))"
    using assms
    by (simp add: tf_handle_def tf_read_request_def Let_def truthy_def tf_is_parse_error_def
        and_then_def py_in_def py_len_def py_item_def tf_write_response_def)
  moreover have "tf_process_request (JObj [(''error'', v)])
             = tf_failure (''Missing '' @ quoted ''format'' @ '' field. '' @ use_formats)"
    by (simp add: tf_process_request_def tf_try_def and_then_def py_get_def lower_method_def
        py_lower_def)
  ultimately show ?thesis by (simp add: write_text_def)
qed

theorem error_only_request_not_dispatched_witness:
  "tf_handle py_json (requests (json_dumps None (JObj [(''error'', JStr ''boom'')]))) =
     Continue (write_text TF_RESPONSE_FILE
                 (dumps_indent py_json (JObj [(''success'', JBool False), (''result'', JStr []),
                                              (''error'', JStr ''boom'')]))
                 (write_text TF_REQUEST_FILE [] (requests (json_dumps None (JObj [(''error'', JStr ''boom'')])))))"
proof -
  have a: "files (requests (json_dumps None (JObj [(''error'', JStr ''boom'')]))) TF_REQUEST_FILE = Some (json_dumps None (JObj [(''error'', JStr ''boom'')]))"
    by code_simp
  have b: "py_strip (json_dumps None (JObj [(''error'', JStr ''boom'')])) \<noteq> []"
    by code_simp
  have c: "loads py_json (py_strip (json_dumps None (JObj [(''error'', JStr ''boom'')]))) = Decoded (JObj [(''error'', JStr ''boom'')])"
    by code_simp
  show ?thesis
    using error_only_request_not_dispatched [OF a b c] by (rule conjunct1)
qed

section \<open>Properties of the callers\<close>

lemma poll_bound: "(real k / 10 < timeout) = (k < nat \<lceil>timeout * 10\<rceil>)"
proof
  assume "real k / 10 < timeout"
  then have "real k < timeout * 10" by simp
  then have "int k < \<lceil>timeout * 10\<rceil>" by linarith
  then show "k < nat \<lceil>timeout * 10\<rceil>" by linarith
next
  assume "k < nat \<lceil>timeout * 10\<rceil>"
  then have "int k < \<lceil>timeout * 10\<rceil>" by linarith
  then have "real k < timeout * 10" by linarith
  then show "real k / 10 < timeout" by simp
qed

lemma sleep_blank:
  assumes "\<forall>j s. written j = Some s \<longrightarrow> py_strip s = []" and "blank (files w p)"
  shows "blank (files (sleep p (written k) w) p)"
  using assms by (cases "written k") (auto simp: sleep_def blank_def)

lemma poll_response_times_out:
  assumes "\<forall>j s. written j = Some s \<longrightarrow> py_strip s = []"
    and "\<exists>raw. files w rf = Some raw \<and> py_strip raw = []"
  shows "fst (poll_response lib written timeout rf invalid timed_out k w) = Inr timed_out
         \<and> trace (snd (poll_response lib written timeout rf invalid timed_out k w))
             = trace w @ replicate (nat \<lceil>timeout * 10\<rceil> - k) Sleep"
  using assms
proof (induction lib written timeout rf invalid timed_out k w rule: poll_response.induct)
  case (1 lib written timeout rf invalid timed_out k w)
  show ?case
  proof (cases "real k / 10 < timeout")
    case False
    then have "\<not> k < nat \<lceil>timeout * 10\<rceil>" using poll_bound [of k timeout] by blast
    then have "nat \<lceil>timeout * 10\<rceil> - k = 0" by linarith
    with False show ?thesis by (subst (1 2) poll_response.simps) simp
  next
    case True
    let ?w1 = "sleep rf (written k) w"
    from "1.prems" obtain raw where raw: "files ?w1 rf = Some raw" "py_strip raw = []"
      by (cases "written k") (auto simp: sleep_def)
    have "\<exists>raw. files ?w1 rf = Some raw \<and> py_strip raw = []" using raw by blast
    from "1.IH" [OF True refl raw(1) refl _ "1.prems"(1) this] raw(2)
    have ih: "fst (poll_response lib written timeout rf invalid timed_out (Suc k) ?w1) = Inr timed_out
         \<and> trace (snd (poll_response lib written timeout rf invalid timed_out (Suc k) ?w1))
             = trace ?w1 @ replicate (nat \<lceil>timeout * 10\<rceil> - Suc k) Sleep"
      by simp
    have unfold: "poll_response lib written timeout rf invalid timed_out k w
                   = poll_response lib written timeout rf invalid timed_out (Suc k) ?w1"
      using True raw by (subst poll_response.simps) (simp add: Let_def)
    from True have "k < nat \<lceil>timeout * 10\<rceil>" using poll_bound [of k timeout] by blast
    then have "nat \<lceil>timeout * 10\<rceil> - k = Suc (nat \<lceil>timeout * 10\<rceil> - Suc k)" by linarith
    then have "replicate (nat \<lceil>timeout * 10\<rceil> - k) Sleep
                 = Sleep # replicate (nat \<lceil>timeout * 10\<rceil> - Suc k) Sleep"
      by simp
    with ih unfold show ?thesis by (simp add: sleep_def)
  qed
qed

lemma poll_response_sleeps:
  "\<exists>n. trace (snd (poll_response lib written timeout rf invalid timed_out k w))
         = trace w @ replicate n Sleep"
proof (induction lib written timeout rf invalid timed_out k w rule: poll_response.induct)
  case (1 lib written timeout rf invalid timed_out k w)
  let ?w1 = "sleep rf (written k) w"
  have one: "trace ?w1 = trace w @ replicate 1 Sleep" by (simp add: sleep_def)
  show ?case
  proof (cases "real k / 10 < timeout")
    case False
    then have "trace (snd (poll_response lib written timeout rf invalid timed_out k w))
                 = trace w @ replicate 0 Sleep"
      by (subst poll_response.simps) simp
    then show ?thesis by blast
  next
    case True
    show ?thesis
    proof (cases "files ?w1 rf")
      case None
      with True have "trace (snd (poll_response lib written timeout rf invalid timed_out k w))
                        = trace ?w1"
        by (subst poll_response.simps) (simp add: Let_def)
      with one show ?thesis by metis
    next
      case (Some raw)
      show ?thesis
      proof (cases "py_strip raw = []")
        case False
        with True Some have "trace (snd (poll_response lib written timeout rf invalid timed_out k w))
                        = trace ?w1"
          by (subst poll_response.simps) (simp add: Let_def split: decoded.splits)
        with one show ?thesis by metis
      next
        case blank: True
        from "1.IH" [OF True refl Some refl] blank
        obtain n where "trace (snd (poll_response lib written timeout rf invalid timed_out (Suc k) ?w1))
                          = trace ?w1 @ replicate n Sleep"
          by auto
        moreover have "poll_response lib written timeout rf invalid timed_out k w
                   = poll_response lib written timeout rf invalid timed_out (Suc k) ?w1"
          using True Some blank by (subst poll_response.simps) (simp add: Let_def)
        ultimately have "trace (snd (poll_response lib written timeout rf invalid timed_out k w))
                          = trace w @ replicate (Suc n) Sleep"
          by (simp add: sleep_def)
        then show ?thesis by blast
      qed
    qed
  qed
qed

lemma poll_response_invalid:
  assumes "\<forall>j. k0 \<le> j \<and> j < k \<longrightarrow> (\<forall>s. written j = Some s \<longrightarrow> py_strip s = [])"
    and "\<exists>raw. files w rf = Some raw \<and> py_strip raw = []"
    and "written k = Some s" and "py_strip s \<noteq> []" and "loads lib (py_strip s) = JSONDecodeError"
    and "real k / 10 < timeout" and "k0 \<le> k"
  shows "fst (poll_response lib written timeout rf invalid timed_out k0 w) = Inr invalid
         \<and> trace (snd (poll_response lib written timeout rf invalid timed_out k0 w))
             = trace w @ replicate (Suc k - k0) Sleep
         \<and> files (snd (poll_response lib written timeout rf invalid timed_out k0 w)) rf = Some s"
  using assms(1,2,7)
proof (induction "k - k0" arbitrary: k0 w)
  case 0
  then have k0: "k0 = k" by simp
  let ?w1 = "sleep rf (written k) w"
  have f: "files ?w1 rf = Some s" using assms(3) by (simp add: sleep_def)
  have "poll_response lib written timeout rf invalid timed_out k w = (Inr invalid, ?w1)"
    using assms(4,5,6) f by (subst poll_response.simps) (simp add: Let_def)
  with f k0 show ?case by (simp add: sleep_def)
next
  case (Suc d)
  then have lt: "k0 < k" by simp
  then have "real k0 / 10 < real k / 10" by simp
  with assms(6) have t: "real k0 / 10 < timeout" by simp
  let ?w1 = "sleep rf (written k0) w"
  from Suc.prems(1) lt have b: "\<forall>s. written k0 = Some s \<longrightarrow> py_strip s = []" by auto
  with Suc.prems(2) obtain raw where raw: "files ?w1 rf = Some raw" "py_strip raw = []"
    by (cases "written k0") (auto simp: sleep_def)
  have unfold: "poll_response lib written timeout rf invalid timed_out k0 w
                   = poll_response lib written timeout rf invalid timed_out (Suc k0) ?w1"
    using t raw by (subst poll_response.simps) (simp add: Let_def)
  have d: "d = k - Suc k0" using Suc.hyps(2) by simp
  have p1: "\<forall>j. Suc k0 \<le> j \<and> j < k \<longrightarrow> (\<forall>s. written j = Some s \<longrightarrow> py_strip s = [])"
    using Suc.prems(1) by (meson Suc_leD)
  have p2: "\<exists>raw. files ?w1 rf = Some raw \<and> py_strip raw = []" using raw by blast
  have p3: "Suc k0 \<le> k" using lt by simp
  from Suc.hyps(1) [OF d p1 p2 p3] unfold lt show ?case
    by (simp add: sleep_def Suc_diff_le replicate_app_Cons_same)
qed

lemma poll_output_times_out:
  assumes "\<forall>j s. written j = Some s \<longrightarrow> py_strip s = []"
    and "blank (files w ''output.csv'')"
  shows "fst (poll_output written timeout k w) = []
         \<and> trace (snd (poll_output written timeout k w))
             = trace w @ replicate (nat \<lceil>timeout * 10\<rceil> - k) Sleep"
  using assms
proof (induction written timeout k w rule: poll_output.induct)
  case (1 written timeout k w)
  show ?case
  proof (cases "real k / 10 < timeout")
    case False
    then have "\<not> k < nat \<lceil>timeout * 10\<rceil>" using poll_bound [of k timeout] by blast
    then have "nat \<lceil>timeout * 10\<rceil> - k = 0" by linarith
    with False show ?thesis by (subst (1 2) poll_output.simps) simp
  next
    case True
    let ?w1 = "sleep ''output.csv'' (written k) w"
    have b: "blank (files ?w1 ''output.csv'')"
      using "1.prems" by (rule sleep_blank)
    have unfold: "poll_output written timeout k w = poll_output written timeout (Suc k) ?w1"
      using True b by (subst poll_output.simps) (simp add: Let_def blank_def split: option.splits)
    have ih: "fst (poll_output written timeout (Suc k) ?w1) = []
         \<and> trace (snd (poll_output written timeout (Suc k) ?w1))
             = trace ?w1 @ replicate (nat \<lceil>timeout * 10\<rceil> - Suc k) Sleep"
    proof (cases "files ?w1 ''output.csv''")
      case None
      from "1.IH"(1) [OF True refl None "1.prems"(1) b] show ?thesis .
    next
      case (Some raw)
      with b have "\<not> py_strip raw \<noteq> []" by (simp add: blank_def)
      from "1.IH"(2) [OF True refl Some refl this "1.prems"(1) b] show ?thesis .
    qed
    from True have "k < nat \<lceil>timeout * 10\<rceil>" using poll_bound [of k timeout] by blast
    then have "nat \<lceil>timeout * 10\<rceil> - k = Suc (nat \<lceil>timeout * 10\<rceil> - Suc k)" by linarith
    then have "replicate (nat \<lceil>timeout * 10\<rceil> - k) Sleep
                 = Sleep # replicate (nat \<lceil>timeout * 10\<rceil> - Suc k) Sleep"
      by simp
    with ih unfold show ?thesis by (simp add: sleep_def)
  qed
qed

lemma poll_output_sleeps:
  "\<exists>n. trace (snd (poll_output written timeout k w)) = trace w @ replicate n Sleep"
proof (induction written timeout k w rule: poll_output.induct)
  case (1 written timeout k w)
  let ?w1 = "sleep ''output.csv'' (written k) w"
  have one: "trace ?w1 = trace w @ replicate 1 Sleep" by (simp add: sleep_def)
  show ?case
  proof (cases "real k / 10 < timeout")
    case False
    then have "trace (snd (poll_output written timeout k w)) = trace w @ replicate 0 Sleep"
      by (subst poll_output.simps) simp
    then show ?thesis by blast
  next
    case True
    show ?thesis
    proof (cases "blank (files ?w1 ''output.csv'')")
      case False
      with True have "trace (snd (poll_output written timeout k w)) = trace ?w1"
        by (subst poll_output.simps) (simp add: Let_def blank_def split: option.splits)
      with one show ?thesis by metis
    next
      case b: True
      have unfold: "poll_output written timeout k w = poll_output written timeout (Suc k) ?w1"
        using True b by (subst poll_output.simps) (simp add: Let_def blank_def split: option.splits)
      have "\<exists>n. trace (snd (poll_output written timeout (Suc k) ?w1)) = trace ?w1 @ replicate n Sleep"
      proof (cases "files ?w1 ''output.csv''")
        case None
        from "1.IH"(1) [OF True refl None] show ?thesis .
      next
        case (Some raw)
        with b have "\<not> py_strip raw \<noteq> []" by (simp add: blank_def)
        from "1.IH"(2) [OF True refl Some refl this] show ?thesis .
      qed
      then obtain n where "trace (snd (poll_output written timeout (Suc k) ?w1))
                             = trace ?w1 @ replicate n Sleep"
        by blast
      with unfold have "trace (snd (poll_output written timeout k w))
                          = trace w @ replicate (Suc n) Sleep"
        by (simp add: sleep_def)
      then show ?thesis by blast
    qed
  qed
qed

lemma poll_output_independent:
  assumes "blank (files w ''output.csv'')" and "blank (files w' ''output.csv'')"
  shows "fst (poll_output written timeout k w) = fst (poll_output written timeout k w')"
  using assms
proof (induction written timeout k w arbitrary: w' rule: poll_output.induct)
  case (1 written timeout k w)
  show ?case
  proof (cases "real k / 10 < timeout")
    case False
    then show ?thesis by (subst (1 2) poll_output.simps) simp
  next
    case True
    let ?w1 = "sleep ''output.csv'' (written k) w"
    let ?w1' = "sleep ''output.csv'' (written k) w'"
    show ?thesis
    proof (cases "written k")
      case None
      then have same: "files ?w1 = files w" "files ?w1' = files w'" by (simp_all add: sleep_def)
      with "1.prems" have b: "blank (files ?w1 ''output.csv'')" "blank (files ?w1' ''output.csv'')"
        by simp_all
      have u: "poll_output written timeout k w = poll_output written timeout (Suc k) ?w1"
        using True b(1) by (subst poll_output.simps) (simp add: Let_def blank_def split: option.splits)
      have u': "poll_output written timeout k w' = poll_output written timeout (Suc k) ?w1'"
        using True b(2) by (subst poll_output.simps) (simp add: Let_def blank_def split: option.splits)
      have "fst (poll_output written timeout (Suc k) ?w1) = fst (poll_output written timeout (Suc k) ?w1')"
      proof (cases "files ?w1 ''output.csv''")
        case None
        from "1.IH"(1) [OF True refl None b] show ?thesis .
      next
        case (Some raw)
        with b have "\<not> py_strip raw \<noteq> []" by (simp add: blank_def)
        from "1.IH"(2) [OF True refl Some refl this b] show ?thesis .
      qed
      with u u' show ?thesis by simp
    next
      case (Some s)
      then have f: "files ?w1 ''output.csv'' = Some s" "files ?w1' ''output.csv'' = Some s"
        by (simp_all add: sleep_def)
      show ?thesis
      proof (cases "py_strip s = []")
        case False
        with True f show ?thesis by (subst (1 2) poll_output.simps) (simp add: Let_def)
      next
        case blank_s: True
        with f have b: "blank (files ?w1 ''output.csv'')" "blank (files ?w1' ''output.csv'')"
          by (simp_all add: blank_def)
        have u: "poll_output written timeout k w = poll_output written timeout (Suc k) ?w1"
          using True f blank_s by (subst poll_output.simps) (simp add: Let_def)
        have u': "poll_output written timeout k w' = poll_output written timeout (Suc k) ?w1'"
          using True f blank_s by (subst poll_output.simps) (simp add: Let_def)
        from blank_s have "\<not> py_strip s \<noteq> []" by simp
        from "1.IH"(2) [OF True refl f(1) refl this b] u u' show ?thesis by simp
      qed
    qed
  qed
qed

lemma poll_output_content:
  assumes "\<forall>j. k0 \<le> j \<and> j < k \<longrightarrow> (\<forall>s. written j = Some s \<longrightarrow> py_strip s = [])"
    and "blank (files w ''output.csv'')"
    and "written k = Some s" and "py_strip s \<noteq> []"
    and "real k / 10 < timeout" and "k0 \<le> k"
  shows "fst (poll_output written timeout k0 w) = py_strip s
         \<and> trace (snd (poll_output written timeout k0 w)) = trace w @ replicate (Suc k - k0) Sleep
         \<and> files (snd (poll_output written timeout k0 w)) ''output.csv'' = Some s"
  using assms(1,2,6)
proof (induction "k - k0" arbitrary: k0 w)
  case 0
  then have k0: "k0 = k" by simp
  let ?w1 = "sleep ''output.csv'' (written k) w"
  have f: "files ?w1 ''output.csv'' = Some s" using assms(3) by (simp add: sleep_def)
  have "poll_output written timeout k w = (py_strip s, ?w1)"
    using assms(4,5) f by (subst poll_output.simps) (simp add: Let_def)
  with f k0 show ?case by (simp add: sleep_def)
next
  case (Suc d)
  then have lt: "k0 < k" by simp
  then have "real k0 / 10 < real k / 10" by simp
  with assms(5) have t: "real k0 / 10 < timeout" by simp
  let ?w1 = "sleep ''output.csv'' (written k0) w"
  from Suc.prems(1) lt have "\<forall>s. written k0 = Some s \<longrightarrow> py_strip s = []" by auto
  with Suc.prems(2) have b: "blank (files ?w1 ''output.csv'')"
    by (cases "written k0") (auto simp: sleep_def blank_def)
  have unfold: "poll_output written timeout k0 w = poll_output written timeout (Suc k0) ?w1"
    using t b by (subst poll_output.simps) (simp add: Let_def blank_def split: option.splits)
  have d: "d = k - Suc k0" using Suc.hyps(2) by simp
  have p1: "\<forall>j. Suc k0 \<le> j \<and> j < k \<longrightarrow> (\<forall>s. written j = Some s \<longrightarrow> py_strip s = [])"
    using Suc.prems(1) by (meson Suc_leD)
  have p3: "Suc k0 \<le> k" using lt by simp
  from Suc.hyps(1) [OF d p1 b p3] unfold lt show ?case
    by (simp add: sleep_def Suc_diff_le replicate_app_Cons_same)
qed

lemma time_slept_app: "time_slept (a @ b) = time_slept a + time_slept b"
  by (simp add: time_slept_def add_divide_distrib)

lemma time_slept_Nil: "time_slept [] = 0"
  by (simp add: time_slept_def)

lemma time_slept_sleeps: "time_slept (replicate n Sleep) = real n / 10"
  by (simp add: time_slept_def)

lemma time_slept_write: "time_slept (Write p s # tr) = time_slept tr"
  by (simp add: time_slept_def)

lemma ceiling_bounds:
  "timeout \<le> real (nat \<lceil>timeout * 10\<rceil>) / 10
   \<and> (0 \<le> timeout \<longrightarrow> real (nat \<lceil>timeout * 10\<rceil>) / 10 < timeout + 1 / 10)"
proof -
  have "timeout * 10 \<le> real_of_int \<lceil>timeout * 10\<rceil>" by linarith
  also have "\<dots> \<le> real (nat \<lceil>timeout * 10\<rceil>)" by simp
  finally have a: "timeout \<le> real (nat \<lceil>timeout * 10\<rceil>) / 10" by simp
  have b: "real (nat \<lceil>timeout * 10\<rceil>) / 10 < timeout + 1 / 10" if "0 \<le> timeout"
  proof -
    from that have "0 \<le> \<lceil>timeout * 10\<rceil>" by simp
    then have "real (nat \<lceil>timeout * 10\<rceil>) = real_of_int \<lceil>timeout * 10\<rceil>" by simp
    moreover have "real_of_int \<lceil>timeout * 10\<rceil> < timeout * 10 + 1" by linarith
    ultimately show ?thesis by simp
  qed
  from a b show ?thesis by blast
qed

lemma cleared_then_written:
  assumes "rq \<noteq> rf"
  shows "files (write_text rq req (write_text rf [] w)) rf = Some []"
    and "trace (write_text rq req (write_text rf [] w)) = trace w @ [Write rf [], Write rq req]"
  using assms by (simp_all add: write_text_def)

lemma json_call_times_out:
  assumes "\<forall>k s. written k = Some s \<longrightarrow> py_strip s = []" and "rq \<noteq> rf"
  shows "fst (poll_response lib written timeout rf invalid timed_out 0
                (write_text rq req (write_text rf [] w))) = Inr timed_out
         \<and> timeout \<le> waited w (snd (poll_response lib written timeout rf invalid timed_out 0
                (write_text rq req (write_text rf [] w))))
         \<and> (0 \<le> timeout \<longrightarrow>
              waited w (snd (poll_response lib written timeout rf invalid timed_out 0
                (write_text rq req (write_text rf [] w)))) < timeout + 1 / 10)"
proof -
  let ?w2 = "write_text rq req (write_text rf [] w)"
  have "\<exists>raw. files ?w2 rf = Some raw \<and> py_strip raw = []"
    using cleared_then_written(1) [OF assms(2)] by (simp add: py_strip_Nil)
  from poll_response_times_out [OF assms(1) this, of lib timeout invalid timed_out 0]
  have r: "fst (poll_response lib written timeout rf invalid timed_out 0 ?w2) = Inr timed_out"
    and t: "trace (snd (poll_response lib written timeout rf invalid timed_out 0 ?w2))
             = trace ?w2 @ replicate (nat \<lceil>timeout * 10\<rceil>) Sleep"
    by simp_all
  have e: "waited w (snd (poll_response lib written timeout rf invalid timed_out 0 ?w2))
          = real (nat \<lceil>timeout * 10\<rceil>) / 10"
    by (simp add: waited_def t cleared_then_written(2) [OF assms(2)] time_slept_app
        time_slept_sleeps time_slept_write)
  show ?thesis using r ceiling_bounds [of timeout] unfolding e by blast
qed

lemma json_call_invalid:
  assumes "\<forall>j<k. \<forall>s. written j = Some s \<longrightarrow> py_strip s = []"
    and "written k = Some s" and "py_strip s \<noteq> []" and "loads lib (py_strip s) = JSONDecodeError"
    and "real k / 10 < timeout" and "rq \<noteq> rf"
  shows "fst (poll_response lib written timeout rf invalid timed_out 0
                (write_text rq req (write_text rf [] w))) = Inr invalid
         \<and> trace (snd (poll_response lib written timeout rf invalid timed_out 0
                (write_text rq req (write_text rf [] w))))
             = trace w @ Write rf [] # Write rq req # replicate (Suc k) Sleep
         \<and> files (snd (poll_response lib written timeout rf invalid timed_out 0
                (write_text rq req (write_text rf [] w)))) rf = Some s"
proof -
  let ?w2 = "write_text rq req (write_text rf [] w)"
  have b: "\<exists>raw. files ?w2 rf = Some raw \<and> py_strip raw = []"
    using cleared_then_written(1) [OF assms(6)] by (simp add: py_strip_Nil)
  have a: "\<forall>j. 0 \<le> j \<and> j < k \<longrightarrow> (\<forall>s. written j = Some s \<longrightarrow> py_strip s = [])"
    using assms(1) by blast
  from poll_response_invalid [OF a b assms(2,3,4,5), of invalid timed_out]
  show ?thesis
    by (simp add: cleared_then_written(2) [OF assms(6)])
qed

lemma json_call_trace:
  assumes "rq \<noteq> rf"
  shows "\<exists>n. trace (snd (poll_response lib written timeout rf invalid timed_out 0
                (write_text rq req (write_text rf [] w))))
             = trace w @ Write rf [] # Write rq req # replicate n Sleep"
  using poll_response_sleeps [of lib written timeout rf invalid timed_out 0
      "write_text rq req (write_text rf [] w)"]
  by (simp add: cleared_then_written(2) [OF assms])

lemma json_call_stale:
  "write_text rf [] (w\<lparr>files := (files w)(rf := stale)\<rparr>) = write_text rf [] w"
  by (simp add: write_text_def)

lemma words_prepared:
  "blank (files (write_text ''input.txt'' text
            (if files w ''output.csv'' \<noteq> None then write_text ''output.csv'' [] w else w))
          ''output.csv'')"
  by (simp add: write_text_def blank_def py_strip_Nil)

lemma words_prepared_trace:
  "trace (write_text ''input.txt'' text
            (if files w ''output.csv'' \<noteq> None then write_text ''output.csv'' [] w else w))
     = trace w @ (if files w ''output.csv'' \<noteq> None then [Write ''output.csv'' []] else [])
         @ [Write ''input.txt'' text]"
  by (simp add: write_text_def)

lemma poll_response_source:
  assumes "\<exists>raw. files w rf = Some raw \<and> py_strip raw = []"
  shows "fst (poll_response lib written timeout rf invalid timed_out k w) = Inr timed_out
         \<or> (\<exists>j s. k \<le> j \<and> written j = Some s \<and> py_strip s \<noteq> []
                \<and> fst (poll_response lib written timeout rf invalid timed_out k w)
                    = (case loads lib (py_strip s) of
                         Decoded response \<Rightarrow> Inr response
                       | JSONDecodeError \<Rightarrow> Inr invalid
                       | OtherError \<Rightarrow> Inl OtherException))"
  using assms
proof (induction lib written timeout rf invalid timed_out k w rule: poll_response.induct)
  case (1 lib written timeout rf invalid timed_out k w)
  let ?w1 = "sleep rf (written k) w"
  show ?case
  proof (cases "real k / 10 < timeout")
    case False
    then have "fst (poll_response lib written timeout rf invalid timed_out k w) = Inr timed_out"
      by (subst poll_response.simps) simp
    then show ?thesis by blast
  next
    case True
    from "1.prems" obtain raw where raw: "files ?w1 rf = Some raw"
      by (cases "written k") (auto simp: sleep_def)
    show ?thesis
    proof (cases "py_strip raw = []")
      case blank: True
      have unfold: "poll_response lib written timeout rf invalid timed_out k w
                   = poll_response lib written timeout rf invalid timed_out (Suc k) ?w1"
        using True raw blank by (subst poll_response.simps) (simp add: Let_def)
      have "\<exists>raw. files ?w1 rf = Some raw \<and> py_strip raw = []" using raw blank by blast
      from "1.IH" [OF True refl raw refl _ this] blank
      have "fst (poll_response lib written timeout rf invalid timed_out (Suc k) ?w1) = Inr timed_out
         \<or> (\<exists>j s. Suc k \<le> j \<and> written j = Some s \<and> py_strip s \<noteq> []
                \<and> fst (poll_response lib written timeout rf invalid timed_out (Suc k) ?w1)
                    = (case loads lib (py_strip s) of
                         Decoded response \<Rightarrow> Inr response
                       | JSONDecodeError \<Rightarrow> Inr invalid
                       | OtherError \<Rightarrow> Inl OtherException))"
        by simp
      then show ?thesis unfolding unfold by (meson Suc_leD)
    next
      case False
      with "1.prems" raw have wr: "written k = Some raw"
        by (cases "written k") (auto simp: sleep_def)
      have "fst (poll_response lib written timeout rf invalid timed_out k w)
              = (case loads lib (py_strip raw) of
                         Decoded response \<Rightarrow> Inr response
                       | JSONDecodeError \<Rightarrow> Inr invalid
                       | OtherError \<Rightarrow> Inl OtherException)"
        using True raw False
        by (subst poll_response.simps) (simp add: Let_def split: decoded.splits)
      with wr False show ?thesis by blast
    qed
  qed
qed

lemma poll_output_source:
  assumes "blank (files w ''output.csv'')"
  shows "fst (poll_output written timeout k w) = []
         \<or> (\<exists>j s. k \<le> j \<and> written j = Some s \<and> py_strip s \<noteq> []
                \<and> fst (poll_output written timeout k w) = py_strip s)"
  using assms
proof (induction written timeout k w rule: poll_output.induct)
  case (1 written timeout k w)
  let ?w1 = "sleep ''output.csv'' (written k) w"
  show ?case
  proof (cases "real k / 10 < timeout")
    case False
    then have "fst (poll_output written timeout k w) = []"
      by (subst poll_output.simps) simp
    then show ?thesis by blast
  next
    case True
    show ?thesis
    proof (cases "blank (files ?w1 ''output.csv'')")
      case b: True
      have unfold: "poll_output written timeout k w = poll_output written timeout (Suc k) ?w1"
        using True b by (subst poll_output.simps) (simp add: Let_def blank_def split: option.splits)
      have "fst (poll_output written timeout (Suc k) ?w1) = []
         \<or> (\<exists>j s. Suc k \<le> j \<and> written j = Some s \<and> py_strip s \<noteq> []
                \<and> fst (poll_output written timeout (Suc k) ?w1) = py_strip s)"
      proof (cases "files ?w1 ''output.csv''")
        case None
        from "1.IH"(1) [OF True refl None b] show ?thesis .
      next
        case (Some raw)
        with b have "\<not> py_strip raw \<noteq> []" by (simp add: blank_def)
        from "1.IH"(2) [OF True refl Some refl this b] show ?thesis .
      qed
      then show ?thesis unfolding unfold by (meson Suc_leD)
    next
      case False
      then obtain raw where raw: "files ?w1 ''output.csv'' = Some raw" "py_strip raw \<noteq> []"
        by (auto simp: blank_def split: option.splits)
      with "1.prems" have wr: "written k = Some raw"
        by (cases "written k") (auto simp: sleep_def blank_def)
      have "fst (poll_output written timeout k w) = py_strip raw"
        using True raw by (subst poll_output.simps) (simp add: Let_def)
      with wr raw(2) show ?thesis by blast
    qed
  qed
qed

lemma json_call_source:
  assumes "rq \<noteq> rf"
  shows "fst (poll_response lib written timeout rf invalid timed_out 0
                (write_text rq req (write_text rf [] w))) = Inr timed_out
         \<or> (\<exists>j s. written j = Some s \<and> py_strip s \<noteq> []
                \<and> fst (poll_response lib written timeout rf invalid timed_out 0
                         (write_text rq req (write_text rf [] w)))
                    = (case loads lib (py_strip s) of
                         Decoded response \<Rightarrow> Inr response
                       | JSONDecodeError \<Rightarrow> Inr invalid
                       | OtherError \<Rightarrow> Inl OtherException))"
proof -
  have "\<exists>raw. files (write_text rq req (write_text rf [] w)) rf = Some raw \<and> py_strip raw = []"
    using cleared_then_written(1) [OF assms] by (simp add: py_strip_Nil)
  from poll_response_source [OF this, of lib written timeout invalid timed_out 0]
  show ?thesis by blast
qed

subsection \<open>Stale responses\<close>

text \<open>
  C1. Each of the four callers first empties the response file and then writes its request;
  after these writes it only sleeps and reads. (\<open>call_words_service\<close> empties \<open>output.csv\<close> only
  if the file exists; a missing file holds nothing.) Whatever the response file held when the
  call started has no influence on the call: with any other initial content, or with no
  response file at all, the call returns the same value. A call that does not time out returns
  what it made of a text that the service wrote during one of the sleeps of this call, after
  the request was written.
\<close>

theorem stale_response_discarded:
  "call_rng_service lib written request_data timeout
       (w\<lparr>files := (files w)(''rng_response.txt'' := stale)\<rparr>)
     = call_rng_service lib written request_data timeout w
   \<and> (\<exists>n. trace (snd (call_rng_service lib written request_data timeout w))
          = trace w @ Write ''rng_response.txt'' []
              # Write ''rng_request.txt'' (dumps lib request_data) # replicate n Sleep)
   \<and> call_text_formatter lib written text format_type timeout
       (w\<lparr>files := (files w)(''text_formatter_response.txt'' := stale)\<rparr>)
     = call_text_formatter lib written text format_type timeout w
   \<and> (\<exists>n. trace (snd (call_text_formatter lib written text format_type timeout w))
          = trace w @ Write ''text_formatter_response.txt'' []
              # Write ''text_formatter_request.txt''
                  (dumps lib (JObj [(''text'', JStr text), (''format'', JStr format_type)]))
              # replicate n Sleep)
   \<and> call_data_counter lib written items timeout
       (w\<lparr>files := (files w)(''data_counter_response.txt'' := stale)\<rparr>)
     = call_data_counter lib written items timeout w
   \<and> (\<exists>n. trace (snd (call_data_counter lib written items timeout w))
          = trace w @ Write ''data_counter_response.txt'' []
              # Write ''data_counter_request.txt''
                  (dumps lib (JObj [(''mode'', JStr ''count''), (''data'', JArr items)]))
              # replicate n Sleep)
   \<and> fst (call_words_service written text timeout
            (w\<lparr>files := (files w)(''output.csv'' := stale)\<rparr>))
     = fst (call_words_service written text timeout w)
   \<and> (\<exists>n. trace (snd (call_words_service written text timeout w))
          = trace w @ (if files w ''output.csv'' \<noteq> None then [Write ''output.csv'' []] else [])
              @ Write ''input.txt'' text # replicate n Sleep)
   \<and> (fst (call_rng_service lib written request_data timeout w) = Inr (JObj [(''status'', JStr ''error''), (''message'', JStr ''Microservice timeout'')])
        \<or> (\<exists>j s. written j = Some s \<and> py_strip s \<noteq> []
               \<and> fst (call_rng_service lib written request_data timeout w)
                   = (case loads lib (py_strip s) of
                        Decoded response \<Rightarrow> Inr response
                      | JSONDecodeError \<Rightarrow> Inr (JObj [(''status'', JStr ''error''), (''message'', JStr ''Invalid JSON response'')])
                      | OtherError \<Rightarrow> Inl OtherException)))
   \<and> (fst (call_text_formatter lib written text format_type timeout w) = Inr (JObj [(''success'', JBool False), (''error'', JStr ''Microservice timeout'')])
        \<or> (\<exists>j s. written j = Some s \<and> py_strip s \<noteq> []
               \<and> fst (call_text_formatter lib written text format_type timeout w)
                   = (case loads lib (py_strip s) of
                        Decoded response \<Rightarrow> Inr response
                      | JSONDecodeError \<Rightarrow> Inr (JObj [(''success'', JBool False), (''error'', JStr ''Invalid JSON response'')])
                      | OtherError \<Rightarrow> Inl OtherException)))
   \<and> (fst (call_data_counter lib written items timeout w) = Inr (JObj [(''success'', JBool False), (''error'', JStr ''Microservice timeout'')])
        \<or> (\<exists>j s. written j = Some s \<and> py_strip s \<noteq> []
               \<and> fst (call_data_counter lib written items timeout w)
                   = (case loads lib (py_strip s) of
                        Decoded response \<Rightarrow> Inr response
                      | JSONDecodeError \<Rightarrow> Inr (JObj [(''success'', JBool False), (''error'', JStr ''Invalid JSON response'')])
                      | OtherError \<Rightarrow> Inl OtherException)))
   \<and> (fst (call_words_service written text timeout w) = []
        \<or> (\<exists>j s. written j = Some s \<and> py_strip s \<noteq> []
               \<and> fst (call_words_service written text timeout w) = py_strip s))"
proof -
  have rng: "call_rng_service lib written request_data timeout
       (w\<lparr>files := (files w)(''rng_response.txt'' := stale)\<rparr>)
     = call_rng_service lib written request_data timeout w"
    by (simp add: call_rng_service_def Let_def json_call_stale)
  have rng_t: "\<exists>n. trace (snd (call_rng_service lib written request_data timeout w))
          = trace w @ Write ''rng_response.txt'' []
              # Write ''rng_request.txt'' (dumps lib request_data) # replicate n Sleep"
    unfolding call_rng_service_def Let_def by (rule json_call_trace) simp
  have tf: "call_text_formatter lib written text format_type timeout
       (w\<lparr>files := (files w)(''text_formatter_response.txt'' := stale)\<rparr>)
     = call_text_formatter lib written text format_type timeout w"
    by (simp add: call_text_formatter_def Let_def json_call_stale)
  have tf_t: "\<exists>n. trace (snd (call_text_formatter lib written text format_type timeout w))
          = trace w @ Write ''text_formatter_response.txt'' []
              # Write ''text_formatter_request.txt''
                  (dumps lib (JObj [(''text'', JStr text), (''format'', JStr format_type)]))
              # replicate n Sleep"
    unfolding call_text_formatter_def Let_def by (rule json_call_trace) simp
  have dc: "call_data_counter lib written items timeout
       (w\<lparr>files := (files w)(''data_counter_response.txt'' := stale)\<rparr>)
     = call_data_counter lib written items timeout w"
    by (simp add: call_data_counter_def Let_def json_call_stale)
  have dc_t: "\<exists>n. trace (snd (call_data_counter lib written items timeout w))
          = trace w @ Write ''data_counter_response.txt'' []
              # Write ''data_counter_request.txt''
                  (dumps lib (JObj [(''mode'', JStr ''count''), (''data'', JArr items)]))
              # replicate n Sleep"
    unfolding call_data_counter_def Let_def by (rule json_call_trace) simp
  have ws: "fst (call_words_service written text timeout
            (w\<lparr>files := (files w)(''output.csv'' := stale)\<rparr>))
     = fst (call_words_service written text timeout w)"
    unfolding call_words_service_def Let_def
    by (rule poll_output_independent) (rule words_prepared)+
  have ws_t: "\<exists>n. trace (snd (call_words_service written text timeout w))
          = trace w @ (if files w ''output.csv'' \<noteq> None then [Write ''output.csv'' []] else [])
              @ Write ''input.txt'' text # replicate n Sleep"
  proof -
    let ?w2 = "write_text ''input.txt'' text
            (if files w ''output.csv'' \<noteq> None then write_text ''output.csv'' [] w else w)"
    obtain n where "trace (snd (poll_output written timeout 0 ?w2)) = trace ?w2 @ replicate n Sleep"
      using poll_output_sleeps by blast
    then have "trace (snd (call_words_service written text timeout w))
          = trace w @ (if files w ''output.csv'' \<noteq> None then [Write ''output.csv'' []] else [])
              @ Write ''input.txt'' text # replicate n Sleep"
      unfolding call_words_service_def Let_def by (simp only: words_prepared_trace) simp
    then show ?thesis by blast
  qed
  have rng_s: "(fst (call_rng_service lib written request_data timeout w) = Inr (JObj [(''status'', JStr ''error''), (''message'', JStr ''Microservice timeout'')])
        \<or> (\<exists>j s. written j = Some s \<and> py_strip s \<noteq> []
               \<and> fst (call_rng_service lib written request_data timeout w)
                   = (case loads lib (py_strip s) of
                        Decoded response \<Rightarrow> Inr response
                      | JSONDecodeError \<Rightarrow> Inr (JObj [(''status'', JStr ''error''), (''message'', JStr ''Invalid JSON response'')])
                      | OtherError \<Rightarrow> Inl OtherException)))"
    unfolding call_rng_service_def Let_def by (rule json_call_source) simp
  have tf_s: "(fst (call_text_formatter lib written text format_type timeout w) = Inr (JObj [(''success'', JBool False), (''error'', JStr ''Microservice timeout'')])
        \<or> (\<exists>j s. written j = Some s \<and> py_strip s \<noteq> []
               \<and> fst (call_text_formatter lib written text format_type timeout w)
                   = (case loads lib (py_strip s) of
                        Decoded response \<Rightarrow> Inr response
                      | JSONDecodeError \<Rightarrow> Inr (JObj [(''success'', JBool False), (''error'', JStr ''Invalid JSON response'')])
                      | OtherError \<Rightarrow> Inl OtherException)))"
    unfolding call_text_formatter_def Let_def by (rule json_call_source) simp
  have dc_s: "(fst (call_data_counter lib written items timeout w) = Inr (JObj [(''success'', JBool False), (''error'', JStr ''Microservice timeout'')])
        \<or> (\<exists>j s. written j = Some s \<and> py_strip s \<noteq> []
               \<and> fst (call_data_counter lib written items timeout w)
                   = (case loads lib (py_strip s) of
                        Decoded response \<Rightarrow> Inr response
                      | JSONDecodeError \<Rightarrow> Inr (JObj [(''success'', JBool False), (''error'', JStr ''Invalid JSON response'')])
                      | OtherError \<Rightarrow> Inl OtherException)))"
    unfolding call_data_counter_def Let_def by (rule json_call_source) simp
  have ws_s: "(fst (call_words_service written text timeout w) = []
        \<or> (\<exists>j s. written j = Some s \<and> py_strip s \<noteq> []
               \<and> fst (call_words_service written text timeout w) = py_strip s))"
  proof -
    have "fst (poll_output written timeout 0
                 (write_text ''input.txt'' text
                    (if files w ''output.csv'' \<noteq> None then write_text ''output.csv'' [] w else w))) = []
        \<or> (\<exists>j s. 0 \<le> j \<and> written j = Some s \<and> py_strip s \<noteq> []
               \<and> fst (poll_output written timeout 0
                 (write_text ''input.txt'' text
                    (if files w ''output.csv'' \<noteq> None then write_text ''output.csv'' [] w else w)))
                   = py_strip s)"
      by (rule poll_output_source) (rule words_prepared)
    then show ?thesis unfolding call_words_service_def Let_def by blast
  qed
  from rng rng_t tf tf_t dc dc_t ws ws_t rng_s tf_s dc_s ws_s show ?thesis by (intro conjI)
qed

theorem stale_response_discarded_witness:
  "call_rng_service py_json (answers_at 1 ''{}'') (JObj []) 5
       (no_files\<lparr>files := (files no_files)(''rng_response.txt'' := Some ''stale'')\<rparr>)
     = call_rng_service py_json (answers_at 1 ''{}'') (JObj []) 5 no_files"
  by (rule conjunct1 [OF stale_response_discarded])

subsection \<open>Timeout\<close>

text \<open>
  C2. If during a call the service writes nothing into the response file, or nothing but
  white space, the call returns the timeout value of its caller: the document with the message
  "Microservice timeout" for the three JSON callers, the empty string for
  \<open>call_words_service\<close>. With the clock advancing by 0.1 s in each sleep, the caller has then
  waited at least \<open>timeout\<close> seconds and, for a timeout that is not negative, less than
  \<open>timeout + 0.1\<close> seconds.
\<close>

theorem timeout_without_response:
  assumes "\<forall>k s. written k = Some s \<longrightarrow> py_strip s = []"
  shows "fst (call_rng_service lib written request_data timeout w)
           = Inr (JObj [(''status'', JStr ''error''), (''message'', JStr ''Microservice timeout'')])
         \<and> timeout \<le> waited w (snd (call_rng_service lib written request_data timeout w))
         \<and> (0 \<le> timeout \<longrightarrow>
               waited w (snd (call_rng_service lib written request_data timeout w)) < timeout + 1 / 10)
         \<and> fst (call_text_formatter lib written text format_type timeout w)
           = Inr (JObj [(''success'', JBool False), (''error'', JStr ''Microservice timeout'')])
         \<and> timeout \<le> waited w (snd (call_text_formatter lib written text format_type timeout w))
         \<and> (0 \<le> timeout \<longrightarrow>
               waited w (snd (call_text_formatter lib written text format_type timeout w))
                 < timeout + 1 / 10)
         \<and> fst (call_data_counter lib written items timeout w)
           = Inr (JObj [(''success'', JBool False), (''error'', JStr ''Microservice timeout'')])
         \<and> timeout \<le> waited w (snd (call_data_counter lib written items timeout w))
         \<and> (0 \<le> timeout \<longrightarrow>
               waited w (snd (call_data_counter lib written items timeout w)) < timeout + 1 / 10)
         \<and> fst (call_words_service written text timeout w) = []
         \<and> timeout \<le> waited w (snd (call_words_service written text timeout w))
         \<and> (0 \<le> timeout \<longrightarrow>
               waited w (snd (call_words_service written text timeout w)) < timeout + 1 / 10)"
proof -
  have rng: "fst (call_rng_service lib written request_data timeout w)
           = Inr (JObj [(''status'', JStr ''error''), (''message'', JStr ''Microservice timeout'')])
         \<and> timeout \<le> waited w (snd (call_rng_service lib written request_data timeout w))
         \<and> (0 \<le> timeout \<longrightarrow>
               waited w (snd (call_rng_service lib written request_data timeout w)) < timeout + 1 / 10)"
    unfolding call_rng_service_def Let_def by (rule json_call_times_out [OF assms]) simp
  have tf: "fst (call_text_formatter lib written text format_type timeout w)
           = Inr (JObj [(''success'', JBool False), (''error'', JStr ''Microservice timeout'')])
         \<and> timeout \<le> waited w (snd (call_text_formatter lib written text format_type timeout w))
         \<and> (0 \<le> timeout \<longrightarrow>
               waited w (snd (call_text_formatter lib written text format_type timeout w))
                 < timeout + 1 / 10)"
    unfolding call_text_formatter_def Let_def by (rule json_call_times_out [OF assms]) simp
  have dc: "fst (call_data_counter lib written items timeout w)
           = Inr (JObj [(''success'', JBool False), (''error'', JStr ''Microservice timeout'')])
         \<and> timeout \<le> waited w (snd (call_data_counter lib written items timeout w))
         \<and> (0 \<le> timeout \<longrightarrow>
               waited w (snd (call_data_counter lib written items timeout w)) < timeout + 1 / 10)"
    unfolding call_data_counter_def Let_def by (rule json_call_times_out [OF assms]) simp
  have ws: "fst (call_words_service written text timeout w) = []
         \<and> timeout \<le> waited w (snd (call_words_service written text timeout w))
         \<and> (0 \<le> timeout \<longrightarrow>
               waited w (snd (call_words_service written text timeout w)) < timeout + 1 / 10)"
  proof -
    let ?w2 = "write_text ''input.txt'' text
            (if files w ''output.csv'' \<noteq> None then write_text ''output.csv'' [] w else w)"
    have p: "blank (files ?w2 ''output.csv'')" by (rule words_prepared)
    from poll_output_times_out [OF assms p, where timeout = timeout and k = 0]
    have r: "fst (poll_output written timeout 0 ?w2) = []"
      and t: "trace (snd (poll_output written timeout 0 ?w2))
                = trace ?w2 @ replicate (nat \<lceil>timeout * 10\<rceil>) Sleep"
      by simp_all
    have e: "waited w (snd (poll_output written timeout 0 ?w2)) = real (nat \<lceil>timeout * 10\<rceil>) / 10"
      unfolding waited_def t words_prepared_trace
      by (simp add: time_slept_app time_slept_sleeps time_slept_write time_slept_Nil)
    show ?thesis
      unfolding call_words_service_def Let_def
      using r ceiling_bounds [of timeout] unfolding e by blast
  qed
  from rng tf dc ws show ?thesis by blast
qed

theorem timeout_without_response_witness:
  "fst (call_rng_service py_json (\<lambda>k. None) (JObj []) (1 / 4) no_files)
     = Inr (JObj [(''status'', JStr ''error''), (''message'', JStr ''Microservice timeout'')])
   \<and> 1 / 4 \<le> waited no_files (snd (call_rng_service py_json (\<lambda>k. None) (JObj []) (1 / 4) no_files))
   \<and> waited no_files (snd (call_rng_service py_json (\<lambda>k. None) (JObj []) (1 / 4) no_files))
       < 1 / 4 + 1 / 10"
proof -
  have h: "\<forall>k s. (\<lambda>k. None :: string option) k = Some s \<longrightarrow> py_strip s = []" by simp
  have z: "(0::real) \<le> 1 / 4" by simp
  note T = timeout_without_response
    [OF h, where lib = py_json and request_data = "JObj []" and timeout = "1 / 4" and w = no_files]
  note a = conjunct1 [OF T]
  note b = conjunct1 [OF conjunct2 [OF T]]
  note c = mp [OF conjunct1 [OF conjunct2 [OF conjunct2 [OF T]]] z]
  from a b c show ?thesis by (intro conjI)
qed

subsection \<open>Responses that are not JSON\<close>

text \<open>
  C5, as the code has it. In the three JSON callers, when a poll finds content in the
  response file that is not empty after stripping and that \<open>json.loads\<close> rejects with
  \<open>JSONDecodeError\<close>, the caller returns its "Invalid JSON response" document at once: it has
  slept once per poll up to this one and polls no more. It does not touch the response file,
  which still holds the rejected content; the next call empties it before anything is read.
  \<open>call_words_service\<close> does not parse: it returns the stripped content as it is.
\<close>

theorem invalid_response_returned_at_once:
  assumes "\<forall>j<k. \<forall>s. written j = Some s \<longrightarrow> py_strip s = []"
    and "written k = Some s" and "py_strip s \<noteq> []"
    and "loads lib (py_strip s) = JSONDecodeError"
    and "real k / 10 < timeout"
  shows "fst (call_rng_service lib written request_data timeout w)
           = Inr (JObj [(''status'', JStr ''error''), (''message'', JStr ''Invalid JSON response'')])
         \<and> trace (snd (call_rng_service lib written request_data timeout w))
             = trace w @ Write ''rng_response.txt'' []
                 # Write ''rng_request.txt'' (dumps lib request_data) # replicate (Suc k) Sleep
         \<and> files (snd (call_rng_service lib written request_data timeout w)) ''rng_response.txt''
             = Some s
         \<and> fst (call_text_formatter lib written text format_type timeout w)
           = Inr (JObj [(''success'', JBool False), (''error'', JStr ''Invalid JSON response'')])
         \<and> trace (snd (call_text_formatter lib written text format_type timeout w))
             = trace w @ Write ''text_formatter_response.txt'' []
                 # Write ''text_formatter_request.txt''
                     (dumps lib (JObj [(''text'', JStr text), (''format'', JStr format_type)]))
                 # replicate (Suc k) Sleep
         \<and> files (snd (call_text_formatter lib written text format_type timeout w))
               ''text_formatter_response.txt''
             = Some s
         \<and> fst (call_data_counter lib written items timeout w)
           = Inr (JObj [(''success'', JBool False), (''error'', JStr ''Invalid JSON response'')])
         \<and> trace (snd (call_data_counter lib written items timeout w))
             = trace w @ Write ''data_counter_response.txt'' []
                 # Write ''data_counter_request.txt''
                     (dumps lib (JObj [(''mode'', JStr ''count''), (''data'', JArr items)]))
                 # replicate (Suc k) Sleep
         \<and> files (snd (call_data_counter lib written items timeout w)) ''data_counter_response.txt''
             = Some s
         \<and> fst (call_words_service written text timeout w) = py_strip s"
proof -
  have rng: "fst (call_rng_service lib written request_data timeout w)
           = Inr (JObj [(''status'', JStr ''error''), (''message'', JStr ''Invalid JSON response'')])
         \<and> trace (snd (call_rng_service lib written request_data timeout w))
             = trace w @ Write ''rng_response.txt'' []
                 # Write ''rng_request.txt'' (dumps lib request_data) # replicate (Suc k) Sleep
         \<and> files (snd (call_rng_service lib written request_data timeout w)) ''rng_response.txt''
             = Some s"
    unfolding call_rng_service_def Let_def by (rule json_call_invalid [OF assms]) simp
  have tf: "fst (call_text_formatter lib written text format_type timeout w)
           = Inr (JObj [(''success'', JBool False), (''error'', JStr ''Invalid JSON response'')])
         \<and> trace (snd (call_text_formatter lib written text format_type timeout w))
             = trace w @ Write ''text_formatter_response.txt'' []
                 # Write ''text_formatter_request.txt''
                     (dumps lib (JObj [(''text'', JStr text), (''format'', JStr format_type)]))
                 # replicate (Suc k) Sleep
         \<and> files (snd (call_text_formatter lib written text format_type timeout w))
               ''text_formatter_response.txt''
             = Some s"
    unfolding call_text_formatter_def Let_def by (rule json_call_invalid [OF assms]) simp
  have dc: "fst (call_data_counter lib written items timeout w)
           = Inr (JObj [(''success'', JBool False), (''error'', JStr ''Invalid JSON response'')])
         \<and> trace (snd (call_data_counter lib written items timeout w))
             = trace w @ Write ''data_counter_response.txt'' []
                 # Write ''data_counter_request.txt''
                     (dumps lib (JObj [(''mode'', JStr ''count''), (''data'', JArr items)]))
                 # replicate (Suc k) Sleep
         \<and> files (snd (call_data_counter lib written items timeout w)) ''data_counter_response.txt''
             = Some s"
    unfolding call_data_counter_def Let_def by (rule json_call_invalid [OF assms]) simp
  have ws: "fst (call_words_service written text timeout w) = py_strip s"
  proof -
    let ?w2 = "write_text ''input.txt'' text
            (if files w ''output.csv'' \<noteq> None then write_text ''output.csv'' [] w else w)"
    have p: "blank (files ?w2 ''output.csv'')" by (rule words_prepared)
    have a: "\<forall>j. 0 \<le> j \<and> j < k \<longrightarrow> (\<forall>s. written j = Some s \<longrightarrow> py_strip s = [])"
      using assms(1) by blast
    from poll_output_content [OF a p assms(2,3,5)] show ?thesis
      unfolding call_words_service_def Let_def by simp
  qed
  from rng tf dc ws show ?thesis by blast
qed

theorem invalid_response_returned_at_once_witness:
  "fst (call_data_counter py_json (answers_at 2 ''{oops'') [] 5 no_files)
     = Inr (JObj [(''success'', JBool False), (''error'', JStr ''Invalid JSON response'')])
   \<and> trace (snd (call_data_counter py_json (answers_at 2 ''{oops'') [] 5 no_files))
       = trace no_files @ Write ''data_counter_response.txt'' []
           # Write ''data_counter_request.txt''
               (dumps py_json (JObj [(''mode'', JStr ''count''), (''data'', JArr [])]))
           # replicate (Suc 2) Sleep
   \<and> files (snd (call_data_counter py_json (answers_at 2 ''{oops'') [] 5 no_files))
         ''data_counter_response.txt''
       = Some ''{oops''"
proof -
  have h1: "\<forall>j<2. \<forall>s. answers_at 2 ''{oops'' j = Some s \<longrightarrow> py_strip s = []"
    by (simp add: answers_at_def)
  have h2: "answers_at 2 ''{oops'' 2 = Some ''{oops''" by (simp add: answers_at_def)
  have h3: "py_strip ''{oops'' \<noteq> []" by code_simp
  have h4: "loads py_json (py_strip ''{oops'') = JSONDecodeError" by code_simp
  have h5: "real 2 / 10 < 5" by simp
  note T = invalid_response_returned_at_once
    [OF h1 h2 h3 h4 h5, where w = no_files and items = "[]"]
  note dc = conjunct2 [OF conjunct2 [OF conjunct2 [OF conjunct2 [OF conjunct2 [OF conjunct2 [OF T]]]]]]
  note a = conjunct1 [OF dc]
  note b = conjunct1 [OF conjunct2 [OF dc]]
  note c = conjunct1 [OF conjunct2 [OF conjunct2 [OF dc]]]
  from a b c show ?thesis by (intro conjI)
qed

text \<open>
  The caller does not clear the response file: after \<open>call_rng_service\<close> has returned its
  "Invalid JSON response" document for the content \<open>{oops\<close>, the file still holds \<open>{oops\<close>.
\<close>

theorem invalid_response_left_in_slot:
  "fst (call_rng_service py_json (answers_at 0 ''{oops'') (JObj []) 5 no_files)
     = Inr (JObj [(''status'', JStr ''error''), (''message'', JStr ''Invalid JSON response'')])
   \<and> files (snd (call_rng_service py_json (answers_at 0 ''{oops'') (JObj []) 5 no_files))
         ''rng_response.txt''
       = Some ''{oops''"
proof -
  have h1: "\<forall>j<0. \<forall>s. answers_at 0 ''{oops'' j = Some s \<longrightarrow> py_strip s = []" by simp
  have h2: "answers_at 0 ''{oops'' 0 = Some ''{oops''" by (simp add: answers_at_def)
  have h3: "py_strip ''{oops'' \<noteq> []" by code_simp
  have h4: "loads py_json (py_strip ''{oops'') = JSONDecodeError" by code_simp
  have h5: "real 0 / 10 < 5" by simp
  have h6: "''rng_request.txt'' \<noteq> ''rng_response.txt''" by simp
  note T = json_call_invalid [OF h1 h2 h3 h4 h5 h6, where w = no_files]
  show ?thesis
    unfolding call_rng_service_def Let_def
    using conjunct1 [OF T] conjunct2 [OF conjunct2 [OF T]] by (intro conjI)
qed


end
